theory Spec2Isabelle
  imports Complex_Main
begin

section \<open>Python values\<close>

text \<open>
  A Python \<open>str\<close> is a sequence of Unicode code points; the smart quotation marks the
  parser normalises lie outside Latin-1, so a string is a list of code points.
\<close>

type_synonym pystr = "nat list"

definition ascii :: "string \<Rightarrow> pystr" where
  "ascii s = map of_char s"

text \<open>
  A Python \<open>float\<close>. The special values are kept, because the comparisons of the source
  behave differently on them (every comparison with NaN is false). Arithmetic on finite
  values is exact: binary64 rounding and overflow are not modelled, and a decimal literal
  such as \<open>0.7\<close> stands for its decimal value. The two zeros are identified; Python
  compares them equal.
\<close>

datatype pyfloat = Fin real | PInf | NInf | NaN

datatype error =
    ValueError
  | SyntaxError
  | KeyError
  | TypeError
  | ZeroDivisionError
  | ValidationError
  | LLMError nat

fun flt :: "pyfloat \<Rightarrow> pyfloat \<Rightarrow> bool" where
  "flt (Fin a) (Fin b) = (a < b)"
| "flt (Fin a) PInf = True"
| "flt NInf (Fin b) = True"
| "flt NInf PInf = True"
| "flt _ _ = False"

definition feq :: "pyfloat \<Rightarrow> pyfloat \<Rightarrow> bool" where
  "feq x y = (x \<noteq> NaN \<and> y \<noteq> NaN \<and> x = y)"

definition fle :: "pyfloat \<Rightarrow> pyfloat \<Rightarrow> bool" where
  "fle x y = (flt x y \<or> feq x y)"

fun fneg :: "pyfloat \<Rightarrow> pyfloat" where
  "fneg (Fin a) = Fin (- a)"
| "fneg PInf = NInf"
| "fneg NInf = PInf"
| "fneg NaN = NaN"

fun fadd :: "pyfloat \<Rightarrow> pyfloat \<Rightarrow> pyfloat" where
  "fadd (Fin a) (Fin b) = Fin (a + b)"
| "fadd NaN _ = NaN"
| "fadd _ NaN = NaN"
| "fadd PInf NInf = NaN"
| "fadd NInf PInf = NaN"
| "fadd PInf _ = PInf"
| "fadd _ PInf = PInf"
| "fadd NInf _ = NInf"
| "fadd _ NInf = NInf"

definition fsub :: "pyfloat \<Rightarrow> pyfloat \<Rightarrow> pyfloat" where
  "fsub x y = fadd x (fneg y)"

fun fabs :: "pyfloat \<Rightarrow> pyfloat" where
  "fabs (Fin a) = Fin \<bar>a\<bar>"
| "fabs PInf = PInf"
| "fabs NInf = PInf"
| "fabs NaN = NaN"

fun fsgn_inf :: "real \<Rightarrow> pyfloat" where
  "fsgn_inf a = (if a = 0 then NaN else if 0 < a then PInf else NInf)"

fun fmul :: "pyfloat \<Rightarrow> pyfloat \<Rightarrow> pyfloat" where
  "fmul (Fin a) (Fin b) = Fin (a * b)"
| "fmul NaN _ = NaN"
| "fmul _ NaN = NaN"
| "fmul (Fin a) PInf = fsgn_inf a"
| "fmul (Fin a) NInf = fsgn_inf (- a)"
| "fmul PInf (Fin b) = fsgn_inf b"
| "fmul NInf (Fin b) = fsgn_inf (- b)"
| "fmul PInf PInf = PInf"
| "fmul PInf NInf = NInf"
| "fmul NInf PInf = NInf"
| "fmul NInf NInf = PInf"

text \<open>\<open>x / y\<close> on floats raises \<open>ZeroDivisionError\<close> when \<open>y\<close> is zero.\<close>

fun py_truediv :: "pyfloat \<Rightarrow> pyfloat \<Rightarrow> error + pyfloat" where
  "py_truediv (Fin a) (Fin b) = (if b = 0 then Inl ZeroDivisionError else Inr (Fin (a / b)))"
| "py_truediv PInf (Fin b) = (if b = 0 then Inl ZeroDivisionError else Inr (fsgn_inf b))"
| "py_truediv NInf (Fin b) = (if b = 0 then Inl ZeroDivisionError else Inr (fsgn_inf (- b)))"
| "py_truediv NaN (Fin b) = (if b = 0 then Inl ZeroDivisionError else Inr NaN)"
| "py_truediv _ NaN = Inr NaN"
| "py_truediv (Fin a) _ = Inr (Fin 0)"
| "py_truediv _ _ = Inr NaN"

text \<open>
  The builtins \<open>min(a, b)\<close> and \<open>max(a, b)\<close> keep the first argument unless the second
  compares strictly smaller (larger).
\<close>

definition py_min :: "pyfloat \<Rightarrow> pyfloat \<Rightarrow> pyfloat" where
  "py_min a b = (if flt b a then b else a)"

definition py_max :: "pyfloat \<Rightarrow> pyfloat \<Rightarrow> pyfloat" where
  "py_max a b = (if flt a b then b else a)"

text \<open>\<open>sum(xs)\<close> starts from the integer 0 and adds from the left.\<close>

definition py_sum :: "pyfloat list \<Rightarrow> pyfloat" where
  "py_sum xs = foldl fadd (Fin 0) xs"

text \<open>\<open>max(iterable)\<close> raises \<open>ValueError\<close> on an empty iterable.\<close>

definition py_max_list :: "pyfloat list \<Rightarrow> error + pyfloat" where
  "py_max_list xs = (case xs of [] \<Rightarrow> Inl ValueError | x # rest \<Rightarrow> Inr (foldl py_max x rest))"

text \<open>
  The objects that \<open>json.loads\<close> and \<open>ast.literal_eval\<close> can return. A \<open>dict\<close> is an
  association list in insertion order.
\<close>

datatype pyobj =
    PNone
  | PBool bool
  | PInt int
  | PFloat pyfloat
  | PComplex pyfloat pyfloat
  | PStr pystr
  | PBytes "nat list"
  | PEllipsis
  | PList "pyobj list"
  | PTuple "pyobj list"
  | PSet "pyobj list"
  | PDict "(pyobj \<times> pyobj) list"

fun is_dict :: "pyobj \<Rightarrow> bool" where
  "is_dict (PDict kvs) = True"
| "is_dict _ = False"

section \<open>Move (models/moves.py)\<close>

record move =
  strategy :: pystr
  guess :: pyfloat
  inner_thoughts :: "(pystr \<times> pyobj) list"
  public_message :: pystr

text \<open>
  \<open>Move.clamp_guess\<close> runs after pydantic has validated the field as a \<open>float\<close>, so
  \<open>float(value)\<close> is the identity and its \<open>except\<close> branch is dead.
\<close>

definition clamp_guess :: "pyfloat \<Rightarrow> pyfloat" where
  "clamp_guess v =
     (let numeric = v in
      if flt numeric (Fin 0) then Fin 0
      else if flt (Fin 100) numeric then Fin 100
      else numeric)"

definition in_guess_range :: "pyfloat \<Rightarrow> bool" where
  "in_guess_range g = (fle (Fin 0) g \<and> fle g (Fin 100))"

section \<open>Players and turn records (game/players.py, models/records.py)\<close>

text \<open>
  A player carries a handle to its language model. The fields \<open>others\<close>, \<open>history\<close>
  and \<open>records\<close> of the source only feed the prompt builder, which is a parameter here
  (see \<open>env\<close> below), so they are left out.
\<close>

record llm =
  model_name :: pystr
  temperature :: pyfloat

record player =
  name :: pystr
  llm :: llm
  score :: pyfloat
  prior_score :: pyfloat
  series :: "pyfloat list"
  is_dead :: bool
  is_winner :: bool

definition MAX_TOKENS :: int where
  "MAX_TOKENS = 600"

record turn_record =
  name :: pystr
  turn :: int
  is_invalid_move :: bool
  system_prompt :: pystr
  user_prompt :: pystr
  model_name :: pystr
  temperature :: "pyfloat option"
  repair_attempted :: bool
  repaired_response :: pystr
  prior_score :: "pyfloat option"
  post_score :: "pyfloat option"
  inner_thoughts :: "(pystr \<times> pyobj) list"
  inner_prediction :: "pyobj option"
  inner_why :: "pyobj option"
  guess :: "pyfloat option"
  applied_guess :: "pyfloat option"
  target_value :: "pyfloat option"
  distance_from_target :: "pyfloat option"
  score_delta :: "pyfloat option"
  move :: "move option"
  raw_response :: pystr

text \<open>\<open>TurnRecord.__init__(name, turn, move=None, is_invalid_move=False, raw_response="")\<close>\<close>

definition TurnRecord_init ::
  "pystr \<Rightarrow> int \<Rightarrow> move option \<Rightarrow> bool \<Rightarrow> pystr \<Rightarrow> turn_record" where
  "TurnRecord_init nm t mv invalid raw =
     \<lparr> name = nm,
       turn = t,
       is_invalid_move = invalid,
       system_prompt = [],
       user_prompt = [],
       model_name = [],
       temperature = None,
       repair_attempted = False,
       repaired_response = [],
       prior_score = None,
       post_score = None,
       inner_thoughts = [],
       inner_prediction = None,
       inner_why = None,
       guess = None,
       applied_guess = None,
       target_value = None,
       distance_from_target = None,
       score_delta = None,
       move = mv,
       raw_response = raw \<rparr>"

section \<open>The environment: libraries, prompts and the remote models\<close>

text \<open>
  One call of \<open>llm.send(system_prompt, user_prompt, max_tokens)\<close>, with the name of the
  player whose model is asked.
\<close>

record llm_call =
  callee :: pystr
  call_llm :: llm
  call_system :: pystr
  call_user :: pystr
  call_max_tokens :: int

type_synonym trace = "llm_call list"

text \<open>
  Everything the referee calls that is not code of this repository, or that the claims
  do not look into, is a field of the environment, and every theorem holds for every
  environment:
  \<^item> \<open>json.loads\<close> and \<open>ast.literal_eval\<close>;
  \<^item> pydantic's coercion of a decoded value into a \<open>str\<close>, \<open>float\<close> and
    \<open>Dict[str, Any]\<close> field (\<open>None\<close>: the value is rejected);
  \<^item> \<open>Player.system_prompt\<close> and \<open>Player.user_prompt\<close> (prompting/*.py), which build
    text only;
  \<^item> the remote models: a call either raises or returns text, and the answer may depend
    on every call made before it (the trace), so no determinism is assumed.
\<close>

record env =
  json_loads :: "pystr \<Rightarrow> error + pyobj"
  literal_eval :: "pystr \<Rightarrow> error + pyobj"
  pydantic_str :: "pyobj \<Rightarrow> pystr option"
  pydantic_float :: "pyobj \<Rightarrow> pyfloat option"
  pydantic_dict :: "pyobj \<Rightarrow> (pystr \<times> pyobj) list option"
  system_prompt_of :: "player \<Rightarrow> pystr"
  user_prompt_of :: "player \<Rightarrow> int \<Rightarrow> pystr"
  remote :: "trace \<Rightarrow> llm_call \<Rightarrow> error + pystr"

definition llm_request :: "player \<Rightarrow> pystr \<Rightarrow> pystr \<Rightarrow> int \<Rightarrow> llm_call" where
  "llm_request p sys usr max_tokens =
     \<lparr> callee = player.name p, call_llm = llm p, call_system = sys,
       call_user = usr, call_max_tokens = max_tokens \<rparr>"

text \<open>\<open>p.llm.send(sys, usr, max_tokens)\<close>: the answer, and the trace with the call added.\<close>

definition send ::
  "env \<Rightarrow> player \<Rightarrow> pystr \<Rightarrow> pystr \<Rightarrow> int \<Rightarrow> trace \<Rightarrow> (error + pystr) \<times> trace" where
  "send e p sys usr max_tokens tr =
     (let c = llm_request p sys usr max_tokens
      in (remote e tr c, tr @ [c]))"

text \<open>The dictionary that \<open>Player.make_move\<close> returns.\<close>

record move_reply =
  reply_response :: pystr
  reply_system_prompt :: pystr
  reply_user_prompt :: pystr
  reply_model_name :: pystr
  reply_temperature :: "pyfloat option"

definition make_move ::
  "env \<Rightarrow> player \<Rightarrow> int \<Rightarrow> trace \<Rightarrow> (error + move_reply) \<times> trace" where
  "make_move e p t tr =
     (let sys = system_prompt_of e p;
          usr = user_prompt_of e p t
      in case send e p sys usr MAX_TOKENS tr of
           (Inl err, tr') \<Rightarrow> (Inl err, tr')
         | (Inr response, tr') \<Rightarrow>
             (Inr \<lparr> reply_response = response,
                    reply_system_prompt = sys,
                    reply_user_prompt = usr,
                    reply_model_name = llm.model_name (llm p),
                    reply_temperature = Some (llm.temperature (llm p)) \<rparr>, tr'))"


section \<open>Building a Move from a decoded mapping\<close>

text \<open>
  \<open>Move(**response_dict)\<close>. The call itself needs a mapping whose keys are strings
  (\<open>TypeError\<close> otherwise). pydantic then reads each field by its alias
  (\<open>secret strategy\<close>, \<open>guess\<close>, \<open>inner_thoughts\<close>, \<open>public message\<close>), ignores other
  keys, requires the first two, coerces each value, and passes the guess through
  \<open>clamp_guess\<close>; any failure is one \<open>ValidationError\<close>.
\<close>

fun str_keys :: "(pyobj \<times> pyobj) list \<Rightarrow> (pystr \<times> pyobj) list option" where
  "str_keys [] = Some []"
| "str_keys ((PStr k, v) # kvs) =
     (case str_keys kvs of None \<Rightarrow> None | Some r \<Rightarrow> Some ((k, v) # r))"
| "str_keys (_ # kvs) = None"

definition Move_fields :: "env \<Rightarrow> (pystr \<times> pyobj) list \<Rightarrow> error + move" where
  "Move_fields e kw =
     (case (map_of kw (ascii ''secret strategy''), map_of kw (ascii ''guess'')) of
        (Some s, Some g) \<Rightarrow>
          (case (pydantic_str e s,
                 pydantic_float e g,
                 (case map_of kw (ascii ''inner_thoughts'') of
                    None \<Rightarrow> Some [] | Some d \<Rightarrow> pydantic_dict e d),
                 (case map_of kw (ascii ''public message'') of
                    None \<Rightarrow> Some [] | Some m \<Rightarrow> pydantic_str e m)) of
             (Some s', Some g', Some it, Some pm) \<Rightarrow>
               Inr \<lparr> strategy = s', guess = clamp_guess g',
                     inner_thoughts = it, public_message = pm \<rparr>
           | _ \<Rightarrow> Inl ValidationError)
      | _ \<Rightarrow> Inl ValidationError)"

definition Move_init :: "env \<Rightarrow> pyobj \<Rightarrow> error + move" where
  "Move_init e obj =
     (case obj of
        PDict kvs \<Rightarrow>
          (case str_keys kvs of
             None \<Rightarrow> Inl TypeError
           | Some kw \<Rightarrow> Move_fields e kw)
      | _ \<Rightarrow> Inl TypeError)"

section \<open>Referee.parse_response (game/referees.py)\<close>

text \<open>\<open>s.find(c)\<close> and \<open>s.rfind(c)\<close> for a one-character \<open>c\<close>: an index, or -1.\<close>

fun py_find :: "pystr \<Rightarrow> nat \<Rightarrow> int" where
  "py_find [] c = - 1"
| "py_find (x # xs) c =
     (if x = c then 0 else (let r = py_find xs c in if r = - 1 then - 1 else r + 1))"

definition py_rfind :: "pystr \<Rightarrow> nat \<Rightarrow> int" where
  "py_rfind s c =
     (let r = py_find (rev s) c in if r = - 1 then - 1 else int (length s) - 1 - r)"

text \<open>\<open>s[i:j]\<close> for \<open>0 \<le> i \<le> j\<close>.\<close>

definition py_slice :: "pystr \<Rightarrow> int \<Rightarrow> int \<Rightarrow> pystr" where
  "py_slice s i j = take (nat (j - i)) (drop (nat i) s)"

text \<open>\<open>s.replace(a, b)\<close> for one-character \<open>a\<close> and \<open>b\<close>.\<close>

definition py_replace :: "pystr \<Rightarrow> nat \<Rightarrow> nat \<Rightarrow> pystr" where
  "py_replace s a b = map (\<lambda>c. if c = a then b else c) s"

text \<open>The code points that \<open>\s\<close> matches in a \<open>str\<close> pattern (those of \<open>str.isspace\<close>).\<close>

definition is_space :: "nat \<Rightarrow> bool" where
  "is_space c = (c \<in> set ([9, 10, 11, 12, 13, 28, 29, 30, 31, 32, 133, 160, 5760]
                   @ [8192 ..< 8203] @ [8232, 8233, 8239, 8287, 12288]))"

text \<open>
  \<open>re.sub(r",\s*(\}|\])", r"\1", s)\<close>: scanning from the left, a comma followed by any
  run of white space and then a closing brace or bracket is replaced by that closing
  character, and the scan goes on behind it.
\<close>

function strip_trailing_commas :: "pystr \<Rightarrow> pystr" where
  "strip_trailing_commas [] = []"
| "strip_trailing_commas (c # cs) =
     (if c = 44 then
        (case dropWhile is_space cs of
           [] \<Rightarrow> c # strip_trailing_commas cs
         | d # ds \<Rightarrow>
             if d = 125 \<or> d = 93 then d # strip_trailing_commas ds
             else c # strip_trailing_commas cs)
      else c # strip_trailing_commas cs)"
  by pat_completeness auto
termination
proof (relation "measure length")
  show "wf (measure length)" by simp
next
  fix c :: nat and cs x21 x22
  assume "dropWhile is_space cs = x21 # x22"
  then have "length (x21 # x22) \<le> length cs"
    using length_dropWhile_le [of is_space cs] by simp
  then show "(x22, c # cs) \<in> measure length" by simp
qed auto

definition cosmetic_repair :: "pystr \<Rightarrow> pystr" where
  "cosmetic_repair snippet =
     (let cleaned = snippet;
          cleaned = py_replace (py_replace (py_replace (py_replace cleaned 8220 34) 8221 34)
                      8216 39) 8217 39;
          cleaned = strip_trailing_commas cleaned
      in cleaned)"

text \<open>
  Lines 272 to 295: the three decoders, each tried only when the one before raised.
\<close>

definition decode_snippet :: "env \<Rightarrow> pystr \<Rightarrow> error + pyobj" where
  "decode_snippet e snippet =
     (case json_loads e snippet of
        Inr response_dict \<Rightarrow> Inr response_dict
      | Inl _ \<Rightarrow>
          (case (case literal_eval e snippet of
                   Inr python_obj \<Rightarrow>
                     if is_dict python_obj then Inr python_obj else Inl ValueError
                 | Inl err \<Rightarrow> Inl err) of
             Inr response_dict \<Rightarrow> Inr response_dict
           | Inl _ \<Rightarrow>
               (case json_loads e (cosmetic_repair snippet) of
                  Inr response_dict \<Rightarrow> Inr response_dict
                | Inl _ \<Rightarrow> Inl ValueError)))"

definition parse_response :: "env \<Rightarrow> pystr \<Rightarrow> error + move" where
  "parse_response e response =
     (let first = py_find response 123;
          last = py_rfind response 125
      in if first = - 1 \<or> last = - 1 \<or> last \<le> first then Inl ValueError
         else
           (let snippet = py_slice response first (last + 1)
            in case decode_snippet e snippet of
                 Inl err \<Rightarrow> Inl err
               | Inr response_dict \<Rightarrow> Move_init e response_dict))"


section \<open>Referee: one player's turn (game/referees.py)\<close>

record referee =
  players :: "player list"
  turn :: int
  records :: "(pystr \<times> turn_record) list"
  player_names :: "pystr list"
  run_date :: "pystr option"

text \<open>
  \<open>player_map\<close> is the dictionary \<open>{player.name: player for player in players}\<close>: a
  later player replaces an earlier one of the same name. Its values are references to
  the objects of \<open>players\<close>, so it is the position of the last player with that name;
  names and positions do not change while a referee lives.
\<close>

definition player_map :: "player list \<Rightarrow> pystr \<Rightarrow> nat option" where
  "player_map ps = map_of (rev (zip (map player.name ps) [0 ..< length ps]))"

definition Referee_init :: "player list \<Rightarrow> int \<Rightarrow> pystr option \<Rightarrow> referee" where
  "Referee_init ps t rd =
     \<lparr> players = ps, turn = t, records = [],
       player_names = map player.name ps, run_date = rd \<rparr>"

definition repair_user :: "pystr \<Rightarrow> pystr" where
  "repair_user original_response =
     ascii ''\<newline>Your previous response could not be parsed as valid JSON for this Keynes Beauty Contest turn.\<newline>Here is what you returned:\<newline>\<newline>''
     @ original_response
     @ ascii ''\<newline>\<newline>Return ONLY one JSON object with exactly these keys: 'secret strategy', 'inner_thoughts', 'guess', 'public message'.\<newline>- 'guess' must be a number between 0 and 100.\<newline>- 'inner_thoughts' must contain 'prediction' and 'why'.\<newline>Do NOT add explanatory text before or after the JSON object.\<newline>''"

definition helper_prompt :: "pystr \<Rightarrow> pystr" where
  "helper_prompt original_response =
     ascii ''\<newline>Another player produced an output that could not be parsed as JSON.\<newline>Please reformat the following text into a single valid JSON object with the keys:\<newline>'secret strategy', 'inner_thoughts' (with 'prediction' and 'why'), 'guess', 'public message'.\<newline>''
     @ original_response
     @ ascii ''\<newline>\<newline>Return ONLY the JSON object.''"

text \<open>
  The fallback loop of \<open>repair_response\<close> over \<open>self.players\<close>: a player of the same
  name is skipped, a helper whose call raises is skipped, the first reply is returned.
  \<open>None\<close>: the loop ran to its end.
\<close>

fun ask_helpers ::
  "env \<Rightarrow> player \<Rightarrow> pystr \<Rightarrow> player list \<Rightarrow> trace \<Rightarrow> pystr option \<times> trace" where
  "ask_helpers e p original_response [] tr = (None, tr)"
| "ask_helpers e p original_response (helper # rest) tr =
     (if player.name helper = player.name p then ask_helpers e p original_response rest tr
      else
        (case send e helper (system_prompt_of e helper) (helper_prompt original_response)
                (MAX_TOKENS div 4) tr of
           (Inr repaired, tr') \<Rightarrow> (Some repaired, tr')
         | (Inl _, tr') \<Rightarrow> ask_helpers e p original_response rest tr'))"

text \<open>The bare \<open>raise\<close> at the end re-raises the exception of the same-agent call.\<close>

definition repair_response ::
  "env \<Rightarrow> referee \<Rightarrow> player \<Rightarrow> pystr \<Rightarrow> trace \<Rightarrow> (error + pystr) \<times> trace" where
  "repair_response e ref p original_response tr =
     (case send e p (system_prompt_of e p) (repair_user original_response)
             (MAX_TOKENS div 4) tr of
        (Inr repaired, tr') \<Rightarrow> (Inr repaired, tr')
      | (Inl err, tr') \<Rightarrow>
          (case ask_helpers e p original_response (referee.players ref) tr' of
             (Some repaired, tr'') \<Rightarrow> (Inr repaired, tr'')
           | (None, tr'') \<Rightarrow> (Inl err, tr'')))"

text \<open>
  Lines 58 to 78 and 90 to 110 of \<open>do_turn_for_player\<close>, the same in both branches that
  accept a move: the prompt metadata, the prior score, the inner thoughts and the guess.
\<close>

definition with_metadata :: "move_reply \<Rightarrow> turn_record \<Rightarrow> turn_record" where
  "with_metadata response rec =
     rec \<lparr> system_prompt := reply_system_prompt response,
           user_prompt := reply_user_prompt response,
           model_name := reply_model_name response,
           temperature := reply_temperature response \<rparr>"

definition with_move :: "player \<Rightarrow> move \<Rightarrow> turn_record \<Rightarrow> turn_record" where
  "with_move p mv rec =
     (let it = move.inner_thoughts mv
      in rec \<lparr> prior_score := Some (player.prior_score p),
               inner_thoughts := it,
               inner_prediction := map_of it (ascii ''prediction''),
               inner_why := map_of it (ascii ''why''),
               guess := Some (move.guess mv),
               applied_guess := Some (move.guess mv) \<rparr>)"

text \<open>
  \<open>do_turn_for_player\<close>. Each \<open>try\<close> of the source is a \<open>case\<close> on the result of its body
  and each \<open>except Exception\<close> the \<open>Inl\<close> branch. The outer handler can only be reached
  from \<open>make_move\<close>, where \<open>response\<close> still is the empty string. The result type keeps
  the error alternative: that no error leaves the function is a theorem, not a
  convention of the model.
\<close>

definition do_turn_for_player ::
  "env \<Rightarrow> referee \<Rightarrow> player \<Rightarrow> trace \<Rightarrow> (error + turn_record) \<times> trace" where
  "do_turn_for_player e ref p tr =
     (case make_move e p (referee.turn ref) tr of
        (Inl err, tr1) \<Rightarrow>
          (Inr (TurnRecord_init (player.name p) (referee.turn ref) None True []), tr1)
      | (Inr response, tr1) \<Rightarrow>
          (let resp_text = reply_response response
           in case parse_response e resp_text of
                Inr mv \<Rightarrow>
                  (Inr (with_move p mv (with_metadata response
                     (TurnRecord_init (player.name p) (referee.turn ref) (Some mv) False
                        resp_text))), tr1)
              | Inl parse_e \<Rightarrow>
                  (case repair_response e ref p resp_text tr1 of
                     (Inl repair_e, tr2) \<Rightarrow>
                       (Inr (with_metadata response
                          (TurnRecord_init (player.name p) (referee.turn ref) None True
                             resp_text)), tr2)
                   | (Inr repaired, tr2) \<Rightarrow>
                       (case parse_response e repaired of
                          Inl repair_e \<Rightarrow>
                            (Inr (with_metadata response
                               (TurnRecord_init (player.name p) (referee.turn ref) None True
                                  resp_text)), tr2)
                        | Inr mv \<Rightarrow>
                            (Inr (with_move p mv
                               ((with_metadata response
                                  (TurnRecord_init (player.name p) (referee.turn ref) (Some mv)
                                     False repaired))
                                \<lparr> repair_attempted := True,
                                  repaired_response := repaired \<rparr>)), tr2)))))"


section \<open>Referee: scoring a turn (handle_turn)\<close>

definition TARGET_MULTIPLIER :: pyfloat where
  "TARGET_MULTIPLIER = Fin (7 / 10)"

definition is_valid_record :: "turn_record \<Rightarrow> bool" where
  "is_valid_record rec = (\<not> is_invalid_move rec \<and> applied_guess rec \<noteq> None)"

definition valid_records :: "(pystr \<times> turn_record) list \<Rightarrow> turn_record list" where
  "valid_records recs = filter is_valid_record (map snd recs)"

text \<open>
  Lines 219 to 223. The guesses are those of the valid records, none of which is
  \<open>None\<close>; the division cannot fail, since the list is not empty.
\<close>

definition compute_target :: "turn_record list \<Rightarrow> error + pyfloat option" where
  "compute_target vrs =
     (if vrs \<noteq> [] then
        (let guesses = List.map_filter applied_guess vrs
         in case py_truediv (py_sum guesses) (Fin (of_nat (length guesses))) of
              Inl err \<Rightarrow> Inl err
            | Inr avg_guess \<Rightarrow> Inr (Some (fmul TARGET_MULTIPLIER avg_guess)))
      else Inr None)"

text \<open>\<open>record.applied_guess or 0.0\<close>: \<open>None\<close> and zero are false.\<close>

definition or_zero :: "pyfloat option \<Rightarrow> pyfloat" where
  "or_zero x = (case x of None \<Rightarrow> Fin 0 | Some g \<Rightarrow> if feq g (Fin 0) then Fin 0 else g)"

text \<open>
  The body of the loop of lines 225 to 244, for one record and the player it belongs
  to: the record and the player as the iteration leaves them. In the second branch
  neither \<open>applied_guess\<close> nor \<open>target\<close> is \<open>None\<close>; \<open>float(None)\<close> would raise
  \<open>TypeError\<close>.
\<close>

definition score_record ::
  "pyfloat option \<Rightarrow> player \<Rightarrow> turn_record \<Rightarrow> error + (turn_record \<times> player)" where
  "score_record target p record =
     (if is_invalid_move record \<or> applied_guess record = None \<or> target = None then
        Inr (record
               \<lparr> target_value := target,
                 distance_from_target :=
                   (case target of
                      None \<Rightarrow> None
                    | Some t \<Rightarrow> Some (fabs (fsub (or_zero (applied_guess record)) t))),
                 score_delta := Some (Fin 0),
                 post_score := Some (player.score p) \<rparr>, p)
      else
        (case (applied_guess record, target) of
           (Some g, Some t) \<Rightarrow>
             (let guess = py_max (Fin 0) (py_min (Fin 100) g);
                  distance = fabs (fsub guess t);
                  delta = py_max (Fin 0) (fsub (Fin 100) distance);
                  p' = p \<lparr> score := fadd (player.score p) delta \<rparr>
              in Inr (record
                        \<lparr> applied_guess := Some guess,
                          target_value := target,
                          distance_from_target := Some distance,
                          score_delta := Some delta,
                          post_score := Some (player.score p') \<rparr>, p'))
         | _ \<Rightarrow> Inl TypeError))"

text \<open>
  The loop over \<open>self.records.items()\<close>, with the players it updates.
  \<open>self.player_map[name]\<close> raises \<open>KeyError\<close> for an unknown name.
\<close>

fun score_records ::
  "pyfloat option \<Rightarrow> (pystr \<times> turn_record) list \<Rightarrow> player list
     \<Rightarrow> error + ((pystr \<times> turn_record) list \<times> player list)" where
  "score_records target [] ps = Inr ([], ps)"
| "score_records target ((nm, record) # rest) ps =
     (case player_map ps nm of
        None \<Rightarrow> Inl KeyError
      | Some i \<Rightarrow>
          (case score_record target (ps ! i) record of
             Inl err \<Rightarrow> Inl err
           | Inr (record', p') \<Rightarrow>
               (case score_records target rest (ps [i := p']) of
                  Inl err \<Rightarrow> Inl err
                | Inr (recs, ps') \<Rightarrow> Inr ((nm, record') # recs, ps'))))"

text \<open>
  \<open>handle_turn\<close>. The records are then handed to \<open>MoveLogger.log_turn\<close> inside a
  \<open>try\<close> that swallows every exception; the log is an external sink and the referee's
  state does not depend on it.
\<close>

definition handle_turn :: "referee \<Rightarrow> error + referee" where
  "handle_turn ref =
     (case compute_target (valid_records (records ref)) of
        Inl err \<Rightarrow> Inl err
      | Inr target \<Rightarrow>
          (case score_records target (records ref) (players ref) of
             Inl err \<Rightarrow> Inl err
           | Inr (recs, ps) \<Rightarrow> Inr (ref \<lparr> records := recs, players := ps \<rparr>)))"

section \<open>Referee: a whole turn (do_turn)\<close>

text \<open>\<open>d[k] = v\<close> on a dictionary in insertion order.\<close>

fun dict_set :: "('k \<times> 'v) list \<Rightarrow> 'k \<Rightarrow> 'v \<Rightarrow> ('k \<times> 'v) list" where
  "dict_set [] k v = [(k, v)]"
| "dict_set ((k', v') # d) k v = (if k' = k then (k, v) # d else (k', v') # dict_set d k v)"

text \<open>
  The worker pool runs \<open>do_turn_for_player\<close> for every player and \<open>map\<close> yields the
  records in the order of the players. The interleaving of the workers is not modelled:
  the calls are made one after the other, each seeing the calls made before it.
\<close>

fun collect_records ::
  "env \<Rightarrow> referee \<Rightarrow> player list \<Rightarrow> trace \<Rightarrow> (error + turn_record list) \<times> trace" where
  "collect_records e ref [] tr = (Inr [], tr)"
| "collect_records e ref (p # ps) tr =
     (case do_turn_for_player e ref p tr of
        (Inl err, tr1) \<Rightarrow> (Inl err, tr1)
      | (Inr rec, tr1) \<Rightarrow>
          (case collect_records e ref ps tr1 of
             (Inl err, tr2) \<Rightarrow> (Inl err, tr2)
           | (Inr recs, tr2) \<Rightarrow> (Inr (rec # recs), tr2)))"

text \<open>
  The body of the \<open>for\<close> loop of \<open>do_turn\<close>: \<open>player_with_name\<close> looks the name up in
  \<open>player_map\<close> (\<open>KeyError\<close> if absent), then \<open>self.records[record.name] = record\<close>.
\<close>

fun store_records :: "referee \<Rightarrow> turn_record list \<Rightarrow> error + referee" where
  "store_records ref [] = Inr ref"
| "store_records ref (rec # recs) =
     (case player_map (players ref) (turn_record.name rec) of
        None \<Rightarrow> Inl KeyError
      | Some i \<Rightarrow>
          store_records
            (ref \<lparr> records := dict_set (records ref) (turn_record.name rec) rec \<rparr>) recs)"

text \<open>\<open>ThreadPoolExecutor(max_workers=0)\<close> raises \<open>ValueError\<close>.\<close>

definition do_turn :: "env \<Rightarrow> referee \<Rightarrow> trace \<Rightarrow> (error + referee) \<times> trace" where
  "do_turn e ref tr =
     (if players ref = [] then (Inl ValueError, tr)
      else
        (case collect_records e ref (players ref) tr of
           (Inl err, tr') \<Rightarrow> (Inl err, tr')
         | (Inr recs, tr') \<Rightarrow>
             (case store_records ref recs of
                Inl err \<Rightarrow> (Inl err, tr')
              | Inr ref1 \<Rightarrow>
                  (case handle_turn ref1 of
                     Inl err \<Rightarrow> (Inl err, tr')
                   | Inr ref2 \<Rightarrow> (Inr ref2, tr')))))"


section \<open>Arena (game/arenas.py)\<close>

record arena =
  players :: "player list"
  turn :: int
  is_game_over :: bool
  run_date :: pystr

text \<open>
  What \<open>_determine_starter\<close> reads from outside the arena: three entries of the
  Streamlit session state (with their defaults when Streamlit is absent) and the draw of
  \<open>random.choice\<close>, given as a position.
\<close>

record ui =
  randomize_starter :: bool
  manual_starter_enabled :: bool
  starter_player :: pystr
  random_choice :: nat

fun first_index :: "('a \<Rightarrow> bool) \<Rightarrow> 'a list \<Rightarrow> nat option" where
  "first_index P [] = None"
| "first_index P (x # xs) =
     (if P x then Some 0 else map_option Suc (first_index P xs))"

text \<open>The starter, as its position in \<open>players\<close>.\<close>

definition determine_starter :: "ui \<Rightarrow> player list \<Rightarrow> nat option" where
  "determine_starter u ps =
     (if ps = [] then None
      else if randomize_starter u then Some (random_choice u mod length ps)
      else
        (case (if manual_starter_enabled u
               then first_index (\<lambda>p. player.name p = starter_player u) ps else None) of
           Some i \<Rightarrow> Some i
         | None \<Rightarrow>
             (case first_index (\<lambda>p. player.name p = ascii ''Vanilla'') ps of
                Some i \<Rightarrow> Some i
              | None \<Rightarrow> Some 0)))"

text \<open>
  \<open>apply_starter_policy\<close> moves the starter to the front. The opponent lists it then
  assigns and the session entries it writes are outside the model. The players of an
  arena are distinct objects, so \<open>players[0] is not starter\<close> compares positions.
\<close>

definition apply_starter_policy :: "ui \<Rightarrow> arena \<Rightarrow> arena" where
  "apply_starter_policy u a =
     (case determine_starter u (players a) of
        None \<Rightarrow> a
      | Some i \<Rightarrow>
          if i \<noteq> 0
          then a \<lparr> players := (players a ! i) # (take i (players a) @ drop (Suc i) (players a)) \<rparr>
          else a)"

definition Arena_init :: "ui \<Rightarrow> pystr \<Rightarrow> player list \<Rightarrow> arena" where
  "Arena_init u now ps =
     apply_starter_policy u
       \<lparr> players = ps, turn = 1, is_game_over = False, run_date = now \<rparr>"

text \<open>
  \<open>handle_game_over\<close>. \<open>max\<close> raises on an empty player list. \<open>save_game\<close> writes to an
  external store and swallows every exception, so it leaves the arena as it is.
\<close>

definition handle_game_over :: "arena \<Rightarrow> error + arena" where
  "handle_game_over a =
     (let a1 = a \<lparr> is_game_over := True \<rparr>
      in case py_max_list (map player.score (players a1)) of
           Inl err \<Rightarrow> Inl err
         | Inr winning_score \<Rightarrow>
             Inr (a1 \<lparr> players :=
                    map (\<lambda>p. if feq (player.score p) winning_score
                              then p \<lparr> is_winner := True \<rparr> else p) (players a1) \<rparr>))"

definition prepare_for_turn :: "ui \<Rightarrow> arena \<Rightarrow> arena" where
  "prepare_for_turn u a =
     (let a1 = apply_starter_policy u a
      in a1 \<lparr> players := map (\<lambda>p. p \<lparr> player.prior_score := player.score p \<rparr>) (players a1) \<rparr>)"

definition process_turn_outcome :: "arena \<Rightarrow> error + arena" where
  "process_turn_outcome a =
     (let a1 = a \<lparr> players := map (\<lambda>p. p \<lparr> series := series p @ [player.score p] \<rparr>)
                                 (players a) \<rparr>
      in if turn a1 = 10 then handle_game_over a1
         else if \<not> is_game_over a1 then Inr (a1 \<lparr> turn := turn a1 + 1 \<rparr>)
         else Inr a1)"

text \<open>
  \<open>Arena.do_turn\<close>. The referee works on the arena's own player objects, so the arena
  sees the scores the referee has written.
\<close>

definition Arena_do_turn :: "env \<Rightarrow> ui \<Rightarrow> arena \<Rightarrow> trace \<Rightarrow> (error + arena) \<times> trace" where
  "Arena_do_turn e u a tr =
     (let a1 = prepare_for_turn u a;
          ref = Referee_init (players a1) (turn a1) (Some (run_date a1))
      in case do_turn e ref tr of
           (Inl err, tr') \<Rightarrow> (Inl err, tr')
         | (Inr ref', tr') \<Rightarrow>
             (case process_turn_outcome (a1 \<lparr> players := referee.players ref' \<rparr>) of
                Inl err \<Rightarrow> (Inl err, tr')
              | Inr a2 \<Rightarrow> (Inr a2, tr')))"

text \<open>
  The turns of a game: the interface calls \<open>Arena.do_turn\<close> once per turn, each time
  with the session state of that moment.
\<close>

fun run_turns :: "env \<Rightarrow> ui list \<Rightarrow> arena \<Rightarrow> trace \<Rightarrow> (error + arena) \<times> trace" where
  "run_turns e [] a tr = (Inr a, tr)"
| "run_turns e (u # us) a tr =
     (case Arena_do_turn e u a tr of
        (Inl err, tr') \<Rightarrow> (Inl err, tr')
      | (Inr a', tr') \<Rightarrow> run_turns e us a' tr')"


section \<open>The requests a turn can send\<close>

text \<open>
  Names for the three requests of \<open>make_move\<close> and \<open>repair_response\<close>, as they appear in
  the trace: the move request with the full budget, and the two reformatting requests
  with a quarter of it.
\<close>

definition move_request :: "env \<Rightarrow> player \<Rightarrow> int \<Rightarrow> llm_call" where
  "move_request e p t = llm_request p (system_prompt_of e p) (user_prompt_of e p t) MAX_TOKENS"

definition repair_request :: "env \<Rightarrow> pystr \<Rightarrow> player \<Rightarrow> llm_call" where
  "repair_request e original_response p =
     llm_request p (system_prompt_of e p) (repair_user original_response) (MAX_TOKENS div 4)"

definition helper_request :: "env \<Rightarrow> pystr \<Rightarrow> player \<Rightarrow> llm_call" where
  "helper_request e original_response helper =
     llm_request helper (system_prompt_of e helper) (helper_prompt original_response)
       (MAX_TOKENS div 4)"

text \<open>The players \<open>repair_response\<close> may ask for help: those of another name, in order.\<close>

definition helpers_of :: "referee \<Rightarrow> player \<Rightarrow> player list" where
  "helpers_of ref p = filter (\<lambda>h. player.name h \<noteq> player.name p) (referee.players ref)"

section \<open>Example games\<close>

text \<open>Three players and the records of one turn, for the worked examples below.\<close>

definition ex_llm :: llm where
  "ex_llm = \<lparr> llm.model_name = ascii ''gpt-5-mini'', temperature = Fin (7 / 10) \<rparr>"

definition ex_player :: "string \<Rightarrow> real \<Rightarrow> player" where
  "ex_player nm s =
     \<lparr> player.name = ascii nm, llm = ex_llm, score = Fin s, prior_score = Fin s,
       series = [Fin 0], is_dead = False, is_winner = False \<rparr>"

definition ex_move :: "real \<Rightarrow> move" where
  "ex_move g = \<lparr> strategy = ascii ''x'', guess = Fin g, inner_thoughts = [],
                 public_message = [] \<rparr>"

definition ex_valid :: "string \<Rightarrow> real \<Rightarrow> real \<Rightarrow> pystr \<times> turn_record" where
  "ex_valid nm s g =
     (ascii nm, with_move (ex_player nm s) (ex_move g)
        (TurnRecord_init (ascii nm) 1 (Some (ex_move g)) False []))"

definition ex_invalid :: "string \<Rightarrow> pystr \<times> turn_record" where
  "ex_invalid nm = (ascii nm, TurnRecord_init (ascii nm) 1 None True [])"

definition ex_players :: "player list" where
  "ex_players = [ex_player ''Vanilla'' 10, ex_player ''Strategic'' 20, ex_player ''Agressor'' 30]"

definition ex_referee :: "(pystr \<times> turn_record) list \<Rightarrow> referee" where
  "ex_referee recs = (Referee_init ex_players 1 None) \<lparr> records := recs \<rparr>"

definition ex_none_valid :: referee where
  "ex_none_valid = ex_referee [ex_invalid ''Vanilla'', ex_invalid ''Strategic'', ex_invalid ''Agressor'']"

definition ex_20_40_60 :: referee where
  "ex_20_40_60 = ex_referee [ex_valid ''Vanilla'' 10 20, ex_valid ''Strategic'' 20 40, ex_valid ''Agressor'' 30 60]"

definition ex_30_40_50 :: referee where
  "ex_30_40_50 = ex_referee [ex_valid ''Vanilla'' 10 30, ex_valid ''Strategic'' 20 40, ex_valid ''Agressor'' 30 50]"

definition ex_one_invalid :: referee where
  "ex_one_invalid = ex_referee [ex_valid ''Vanilla'' 10 50, ex_invalid ''Strategic'', ex_valid ''Agressor'' 30 90]"

text \<open>
  An environment for the examples. Its decoders know three texts: the JSON object
  \<open>{"secret strategy": "x", "guess": 50}\<close>, which both accept; the same with single
  quotes, which only \<open>ast.literal_eval\<close> accepts; and the same with curly quotes and a
  trailing comma, which neither accepts. Its pydantic takes a \<open>str\<close> for a string field,
  an \<open>int\<close> or \<open>float\<close> for a float field and a \<open>dict\<close> with string keys for a
  dictionary field. The remote models are given per example.
\<close>

definition ex_json_text :: pystr where
  "ex_json_text = ascii ''{\"secret strategy\": \"x\", \"guess\": 50}''"

definition ex_single_quoted :: pystr where
  "ex_single_quoted = ascii ''{'secret strategy': 'x', 'guess': 50}''"

definition ex_smart_quoted :: pystr where
  "ex_smart_quoted =
     [123, 8220] @ ascii ''secret strategy'' @ [8221] @ ascii '': '' @ [8220] @ ascii ''x''
     @ [8221] @ ascii '', '' @ [8220] @ ascii ''guess'' @ [8221] @ ascii '': 50,}''"

definition ex_dict :: pyobj where
  "ex_dict = PDict [(PStr (ascii ''secret strategy''), PStr (ascii ''x'')),
                    (PStr (ascii ''guess''), PInt 50)]"

definition ex_env :: "(trace \<Rightarrow> llm_call \<Rightarrow> error + pystr) \<Rightarrow> env" where
  "ex_env models =
     \<lparr> json_loads = (\<lambda>s. if s = ex_json_text then Inr ex_dict else Inl ValueError),
       literal_eval = (\<lambda>s. if s = ex_json_text \<or> s = ex_single_quoted then Inr ex_dict
                            else Inl SyntaxError),
       pydantic_str = (\<lambda>obj. case obj of PStr s \<Rightarrow> Some s | _ \<Rightarrow> None),
       pydantic_float = (\<lambda>obj. case obj of PFloat f \<Rightarrow> Some f
                                 | PInt i \<Rightarrow> Some (Fin (of_int i)) | _ \<Rightarrow> None),
       pydantic_dict = (\<lambda>obj. case obj of PDict kvs \<Rightarrow> str_keys kvs | _ \<Rightarrow> None),
       system_prompt_of = (\<lambda>p. ascii ''You are '' @ player.name p),
       user_prompt_of = (\<lambda>p t. ascii ''Your guess, '' @ player.name p),
       remote = models \<rparr>"

text \<open>
  Remote models for the examples. In the first, Vanilla answers with the JSON object,
  Strategic answers its move request with prose and a reformatting request with the
  JSON object, and Agressor's model is down. In the second, every move request is
  answered with prose and only Agressor's model answers a reformatting request.
\<close>

definition ex_chatter :: pystr where
  "ex_chatter = ascii ''I would guess 50.''"

definition ex_models :: "trace \<Rightarrow> llm_call \<Rightarrow> error + pystr" where
  "ex_models tr c =
     (if callee c = ascii ''Vanilla'' then Inr ex_json_text
      else if callee c = ascii ''Strategic'' then
        (if call_max_tokens c = MAX_TOKENS then Inr ex_chatter else Inr ex_json_text)
      else Inl (LLMError 503))"

definition ex_models_helper :: "trace \<Rightarrow> llm_call \<Rightarrow> error + pystr" where
  "ex_models_helper tr c =
     (if call_max_tokens c = MAX_TOKENS then Inr ex_chatter
      else if callee c = ascii ''Agressor'' then Inr ex_single_quoted
      else Inl (LLMError 502))"

definition ex_fresh_referee :: referee where
  "ex_fresh_referee = Referee_init ex_players 1 None"

text \<open>In the third, every request is answered with prose.\<close>

definition ex_models_chatter :: "trace \<Rightarrow> llm_call \<Rightarrow> error + pystr" where
  "ex_models_chatter tr c = Inr ex_chatter"

section \<open>The guess validator\<close>

lemma clamp_guess_inside: "in_guess_range g \<Longrightarrow> clamp_guess g = g"
  by (cases g) (auto simp: clamp_guess_def Let_def in_guess_range_def fle_def feq_def)

lemma clamp_guess_below: "flt g (Fin 0) \<Longrightarrow> clamp_guess g = Fin 0"
  by (simp add: clamp_guess_def Let_def)

lemma clamp_guess_above: "flt (Fin 100) g \<Longrightarrow> clamp_guess g = Fin 100"
  by (cases g) (auto simp: clamp_guess_def Let_def)

lemma clamp_guess_range: "g \<noteq> NaN \<Longrightarrow> in_guess_range (clamp_guess g)"
  by (cases g) (auto simp: clamp_guess_def Let_def in_guess_range_def fle_def feq_def)

text \<open>
  Claim C5. The validator is meant to leave every Move with a guess in [0, 100]. It does
  so for every number and both infinities, but both of its comparisons are false for NaN,
  which it returns unchanged: the value it hands to the Move is then outside [0, 100].
\<close>

theorem clamp_guess_nan:
  "clamp_guess NaN = NaN \<and> \<not> in_guess_range (clamp_guess NaN)"
  by (simp add: clamp_guess_def Let_def in_guess_range_def fle_def feq_def)

section \<open>Scoring a turn\<close>

subsection \<open>The player map and the loop body\<close>

lemma player_map_SomeD:
  assumes "player_map ps n = Some i"
  shows "i < length ps \<and> player.name (ps ! i) = n"
proof -
  from assms have "(n, i) \<in> set (zip (map player.name ps) [0 ..< length ps])"
    unfolding player_map_def by (auto dest: map_of_SomeD)
  then obtain j where "j < length ps" "map player.name ps ! j = n" "[0 ..< length ps] ! j = i"
    by (auto simp: in_set_zip)
  then show ?thesis by simp
qed

lemma player_map_names:
  "map player.name ps' = map player.name ps \<Longrightarrow> player_map ps' = player_map ps"
  using map_eq_imp_length_eq [of player.name ps' player.name ps]
  by (simp add: player_map_def)

lemma player_map_known:
  assumes "n \<in> player.name ` set ps"
  shows "\<exists>i. player_map ps n = Some i"
proof -
  have "n \<in> fst ` set (rev (zip (map player.name ps) [0 ..< length ps]))"
    using assms by (simp add: image_image flip: set_map)
  then show ?thesis
    unfolding player_map_def by (metis map_of_eq_None_iff not_None_eq)
qed

lemma fadd_zero [simp]: "fadd s (Fin 0) = s"
  by (cases s) simp_all

lemma score_delta_bounds:
  "\<exists>d. py_max (Fin 0) (fsub (Fin 100) (fabs x)) = Fin d \<and> 0 \<le> d \<and> d \<le> 100"
  by (cases x) (auto simp: py_max_def fsub_def)

lemma score_record_total: "\<exists>rec' p'. score_record t p rec = Inr (rec', p')"
  by (auto simp: score_record_def Let_def split: option.splits)

lemma score_record_player:
  assumes "score_record t p rec = Inr (rec', p')"
  shows "\<exists>d. 0 \<le> d \<and> d \<le> 100 \<and> score_delta rec' = Some (Fin d)
            \<and> p' = p \<lparr> score := fadd (player.score p) (Fin d) \<rparr>"
proof (cases "is_invalid_move rec \<or> applied_guess rec = None \<or> t = None")
  case True
  with assms have "score_delta rec' = Some (Fin 0)" "p' = p"
    by (auto simp: score_record_def)
  then show ?thesis by (intro exI [of _ 0]) simp
next
  case False
  then obtain g tv where gt: "applied_guess rec = Some g" "t = Some tv" by auto
  obtain d where d: "py_max (Fin 0) (fsub (Fin 100) (fabs (fsub (py_max (Fin 0) (py_min (Fin 100) g)) tv))) = Fin d"
    "0 \<le> d" "d \<le> 100"
    using score_delta_bounds by blast
  with assms False gt show ?thesis
    by (intro exI [of _ d]) (auto simp: score_record_def Let_def)
qed


lemma score_record_name:
  "score_record t p rec = Inr (rec', p') \<Longrightarrow> player.name p' = player.name p"
  by (auto dest: score_record_player)

lemma score_records_spec:
  assumes "distinct (map fst recs)"
    and "\<forall>nm \<in> fst ` set recs. player_map ps nm \<noteq> None"
  shows "\<exists>recs' ps'. score_records t recs ps = Inr (recs', ps')
     \<and> map player.name ps' = map player.name ps
     \<and> map fst recs' = map fst recs
     \<and> (\<forall>k < length recs. \<exists>i. player_map ps (fst (recs ! k)) = Some i
            \<and> score_record t (ps ! i) (snd (recs ! k)) = Inr (snd (recs' ! k), ps' ! i))
     \<and> (\<forall>i < length ps. (\<forall>nm \<in> fst ` set recs. player_map ps nm \<noteq> Some i) \<longrightarrow> ps' ! i = ps ! i)"
  using assms
proof (induction recs arbitrary: ps)
  case Nil
  then show ?case by simp
next
  case (Cons x rest)
  obtain nm rec where x: "x = (nm, rec)" by (cases x)
  from Cons.prems x obtain i where i: "player_map ps nm = Some i" by auto
  then have il: "i < length ps" and iname: "player.name (ps ! i) = nm"
    using player_map_SomeD by blast+
  obtain rec' p' where body: "score_record t (ps ! i) rec = Inr (rec', p')"
    using score_record_total by blast
  define ps1 where "ps1 = ps [i := p']"
  have names1: "map player.name ps1 = map player.name ps"
    using score_record_name [OF body] il
    by (simp add: ps1_def map_update list_update_same_conv)
  then have pm1: "player_map ps1 = player_map ps"
    by (rule player_map_names)
  have len1: "length ps1 = length ps" by (simp add: ps1_def)
  have fresh: "nm \<notin> fst ` set rest"
    using Cons.prems(1) x by simp
  have other: "player_map ps nm' \<noteq> Some i" if "nm' \<in> fst ` set rest" for nm'
    using that fresh iname player_map_SomeD by blast
  from Cons.prems x have "distinct (map fst rest)"
    and "\<forall>nm \<in> fst ` set rest. player_map ps1 nm \<noteq> None"
    by (simp_all add: pm1)
  from Cons.IH [OF this] obtain recs' ps' where
    run: "score_records t rest ps1 = Inr (recs', ps')"
    and names: "map player.name ps' = map player.name ps1"
    and keys: "map fst recs' = map fst rest"
    and each: "\<forall>k < length rest. \<exists>j. player_map ps1 (fst (rest ! k)) = Some j
            \<and> score_record t (ps1 ! j) (snd (rest ! k)) = Inr (snd (recs' ! k), ps' ! j)"
    and untouched: "\<forall>j < length ps1. (\<forall>nm \<in> fst ` set rest. player_map ps1 nm \<noteq> Some j) \<longrightarrow> ps' ! j = ps1 ! j"
    by blast
  have head: "ps' ! i = p'"
  proof -
    have "\<forall>nm \<in> fst ` set rest. player_map ps1 nm \<noteq> Some i"
      using other by (simp add: pm1)
    with untouched il len1 have "ps' ! i = ps1 ! i" by simp
    then show ?thesis using il by (simp add: ps1_def)
  qed
  have res: "score_records t (x # rest) ps = Inr ((nm, rec') # recs', ps')"
    using i body run by (simp add: x ps1_def)
  have each': "\<exists>j. player_map ps (fst ((x # rest) ! k)) = Some j
            \<and> score_record t (ps ! j) (snd ((x # rest) ! k)) = Inr (snd (((nm, rec') # recs') ! k), ps' ! j)"
    if "k < length (x # rest)" for k
  proof (cases k)
    case 0
    then show ?thesis using i body head by (simp add: x)
  next
    case (Suc k')
    with that have k': "k' < length rest" by simp
    with each obtain j where j: "player_map ps (fst (rest ! k')) = Some j"
      "score_record t (ps1 ! j) (snd (rest ! k')) = Inr (snd (recs' ! k'), ps' ! j)"
      by (auto simp: pm1)
    have "fst (rest ! k') \<in> fst ` set rest" using k' by simp
    with other j(1) have "j \<noteq> i" by auto
    then have "ps1 ! j = ps ! j" by (simp add: ps1_def)
    with j show ?thesis by (simp add: Suc)
  qed
  have untouched': "ps' ! j = ps ! j"
    if "j < length ps" "\<forall>nm \<in> fst ` set (x # rest). player_map ps nm \<noteq> Some j" for j
  proof -
    from that(2) i have "j \<noteq> i" by (auto simp: x)
    moreover have "\<forall>nm \<in> fst ` set rest. player_map ps1 nm \<noteq> Some j"
      using that(2) by (simp add: pm1)
    with untouched that(1) len1 have "ps' ! j = ps1 ! j" by simp
    ultimately show ?thesis by (simp add: ps1_def)
  qed
  show ?case
    using res names names1 keys each' untouched' by (simp add: x)
qed

subsection \<open>The target\<close>

lemma valid_records_guesses:
  "List.map_filter applied_guess (valid_records recs)
     = map (\<lambda>rec. the (applied_guess rec)) (valid_records recs)"
  unfolding valid_records_def List.map_filter_def
  by (induction recs) (auto simp: is_valid_record_def)

lemma py_truediv_nonzero: "b \<noteq> 0 \<Longrightarrow> \<exists>q. py_truediv x (Fin b) = Inr q"
  by (cases x) simp_all

lemma compute_target_empty: "compute_target [] = Inr None"
  by (simp add: compute_target_def)

lemma compute_target_valid:
  assumes "valid_records recs \<noteq> []"
  shows "\<exists>avg. py_truediv (py_sum (List.map_filter applied_guess (valid_records recs)))
                 (Fin (real (length (valid_records recs)))) = Inr avg
     \<and> compute_target (valid_records recs) = Inr (Some (fmul TARGET_MULTIPLIER avg))"
proof -
  have len: "length (List.map_filter applied_guess (valid_records recs)) = length (valid_records recs)"
    by (simp add: valid_records_guesses)
  from assms have "real (length (valid_records recs)) \<noteq> 0" by simp
  then obtain avg where "py_truediv (py_sum (List.map_filter applied_guess (valid_records recs)))
                 (Fin (real (length (valid_records recs)))) = Inr avg"
    using py_truediv_nonzero by blast
  then show ?thesis
    using assms by (simp add: compute_target_def len Let_def)
qed

lemma compute_target_total: "\<exists>t. compute_target (valid_records recs) = Inr t"
  using compute_target_valid [of recs] compute_target_empty by (cases "valid_records recs = []") auto

lemma py_sum_Fin: "py_sum (map Fin xs) = Fin (sum_list xs)"
proof -
  have "foldl fadd (Fin a) (map Fin xs) = Fin (a + sum_list xs)" for a
    by (induction xs arbitrary: a) (simp_all add: add.assoc)
  from this [of 0] show ?thesis by (simp add: py_sum_def)
qed

lemma map_filter_all_Some:
  "map f ys = map (Some \<circ> g) xs \<Longrightarrow> List.map_filter f ys = map g xs"
  by (induction ys arbitrary: xs) (auto simp: List.map_filter_def map_eq_Cons_conv)

lemma compute_target_finite:
  assumes "valid_records recs \<noteq> []"
    and "map applied_guess (valid_records recs) = map (Some \<circ> Fin) xs"
  shows "compute_target (valid_records recs)
           = Inr (Some (Fin (7 / 10 * (sum_list xs / real (length xs)))))"
proof -
  have len: "length xs = length (valid_records recs)"
    using assms(2) by (metis length_map)
  have gs: "List.map_filter applied_guess (valid_records recs) = map Fin xs"
    using assms(2) by (rule map_filter_all_Some)
  show ?thesis
    using assms(1) len
    by (simp add: compute_target_def gs py_sum_Fin TARGET_MULTIPLIER_def Let_def)
qed

subsection \<open>The whole of handle_turn\<close>

lemma handle_turn_spec:
  assumes "distinct (map fst (records r))"
    and "\<forall>nm \<in> fst ` set (records r). player_map (referee.players r) nm \<noteq> None"
  shows "\<exists>t r'. compute_target (valid_records (records r)) = Inr t
     \<and> handle_turn r = Inr r'
     \<and> map player.name (referee.players r') = map player.name (referee.players r)
     \<and> map fst (records r') = map fst (records r)
     \<and> (\<forall>k < length (records r). \<exists>i.
            player_map (referee.players r) (fst (records r ! k)) = Some i
          \<and> score_record t (referee.players r ! i) (snd (records r ! k))
              = Inr (snd (records r' ! k), referee.players r' ! i))
     \<and> (\<forall>i < length (referee.players r).
            (\<forall>nm \<in> fst ` set (records r). player_map (referee.players r) nm \<noteq> Some i)
            \<longrightarrow> referee.players r' ! i = referee.players r ! i)"
proof -
  obtain t where t: "compute_target (valid_records (records r)) = Inr t"
    using compute_target_total by blast
  from score_records_spec [OF assms, of t] obtain recs' ps' where
    run: "score_records t (records r) (referee.players r) = Inr (recs', ps')"
    and rest: "map player.name ps' = map player.name (referee.players r)"
      "map fst recs' = map fst (records r)"
      "\<forall>k < length (records r). \<exists>i.
            player_map (referee.players r) (fst (records r ! k)) = Some i
          \<and> score_record t (referee.players r ! i) (snd (records r ! k))
              = Inr (snd (recs' ! k), ps' ! i)"
      "\<forall>i < length (referee.players r).
            (\<forall>nm \<in> fst ` set (records r). player_map (referee.players r) nm \<noteq> Some i)
            \<longrightarrow> ps' ! i = referee.players r ! i"
    by blast
  have "handle_turn r = Inr (r \<lparr> records := recs', referee.players := ps' \<rparr>)"
    using t run by (simp add: handle_turn_def)
  with t rest show ?thesis by simp
qed

lemma score_record_no_target:
  "score_record None p rec
     = Inr (rec \<lparr> target_value := None, distance_from_target := None,
                  score_delta := Some (Fin 0), post_score := Some (player.score p) \<rparr>, p)"
  by (simp add: score_record_def)

lemma score_record_not_valid:
  "\<not> is_valid_record rec \<Longrightarrow>
   score_record (Some t) p rec
     = Inr (rec \<lparr> target_value := Some t,
                  distance_from_target := Some (fabs (fsub (or_zero (applied_guess rec)) t)),
                  score_delta := Some (Fin 0), post_score := Some (player.score p) \<rparr>, p)"
  by (auto simp: score_record_def is_valid_record_def)

lemma score_record_valid:
  assumes "is_valid_record rec" and "applied_guess rec = Some g"
  shows "score_record (Some t) p rec
     = (let guess = py_max (Fin 0) (py_min (Fin 100) g);
            distance = fabs (fsub guess t);
            delta = py_max (Fin 0) (fsub (Fin 100) distance);
            p' = p \<lparr> score := fadd (player.score p) delta \<rparr>
        in Inr (rec \<lparr> applied_guess := Some guess, target_value := Some t,
                      distance_from_target := Some distance, score_delta := Some delta,
                      post_score := Some (player.score p') \<rparr>, p'))"
  using assms by (simp add: score_record_def is_valid_record_def)


lemma ex_player_map:
  "player_map ex_players (ascii ''Vanilla'') = Some 0"
  "player_map ex_players (ascii ''Strategic'') = Some 1"
  "player_map ex_players (ascii ''Agressor'') = Some 2"
  by (simp_all add: player_map_def ex_players_def ex_player_def ascii_def upt_rec)

lemma ex_keys:
  "ascii ''Vanilla'' \<noteq> ascii ''Strategic''"
  "ascii ''Vanilla'' \<noteq> ascii ''Agressor''"
  "ascii ''Strategic'' \<noteq> ascii ''Agressor''"
  by (simp_all add: ascii_def)


text \<open>
  Claim C3. When no record of the turn is valid (each is flagged invalid or has no
  applied guess), \<open>handle_turn\<close> returns, leaves every player as it was, and every
  record ends with \<open>target_value = None\<close> and \<open>score_delta = 0.0\<close>. The keys of the
  record dictionary are distinct and name players of the referee, as they do for the
  records \<open>do_turn\<close> stores.
\<close>

theorem handle_turn_no_valid_record:
  assumes "distinct (map fst (records r))"
    and "\<forall>nm \<in> fst ` set (records r). player_map (referee.players r) nm \<noteq> None"
    and "valid_records (records r) = []"
  shows "\<exists>r'. handle_turn r = Inr r'
     \<and> referee.players r' = referee.players r
     \<and> map fst (records r') = map fst (records r)
     \<and> (\<forall>k < length (records r).
           target_value (snd (records r' ! k)) = None
         \<and> score_delta (snd (records r' ! k)) = Some (Fin 0))"
proof -
  from handle_turn_spec [OF assms(1,2)] obtain t r' where
    t: "compute_target (valid_records (records r)) = Inr t"
    and r': "handle_turn r = Inr r'"
    and names: "map player.name (referee.players r') = map player.name (referee.players r)"
    and keys: "map fst (records r') = map fst (records r)"
    and each: "\<forall>k < length (records r). \<exists>i.
            player_map (referee.players r) (fst (records r ! k)) = Some i
          \<and> score_record t (referee.players r ! i) (snd (records r ! k))
              = Inr (snd (records r' ! k), referee.players r' ! i)"
    and untouched: "\<forall>i < length (referee.players r).
            (\<forall>nm \<in> fst ` set (records r). player_map (referee.players r) nm \<noteq> Some i)
            \<longrightarrow> referee.players r' ! i = referee.players r ! i"
    by blast
  from t assms(3) have tn: "t = None" by (simp add: compute_target_empty)
  have len: "length (referee.players r') = length (referee.players r)"
    using names by (rule map_eq_imp_length_eq)
  have same: "referee.players r' ! i = referee.players r ! i" if "i < length (referee.players r)" for i
  proof (cases "\<forall>nm \<in> fst ` set (records r). player_map (referee.players r) nm \<noteq> Some i")
    case True
    with untouched that show ?thesis by simp
  next
    case False
    then obtain k where k: "k < length (records r)"
      "player_map (referee.players r) (fst (records r ! k)) = Some i"
      by (auto simp: in_set_conv_nth)
    with each show ?thesis by (auto simp: tn score_record_no_target)
  qed
  have "referee.players r' = referee.players r"
    using len same by (auto intro: nth_equalityI)
  moreover have "target_value (snd (records r' ! k)) = None
         \<and> score_delta (snd (records r' ! k)) = Some (Fin 0)" if "k < length (records r)" for k
  proof -
    from each that obtain i where
      "score_record t (referee.players r ! i) (snd (records r ! k))
              = Inr (snd (records r' ! k), referee.players r' ! i)" by blast
    then have "snd (records r' ! k) = (snd (records r ! k))
        \<lparr> target_value := None, distance_from_target := None,
          score_delta := Some (Fin 0), post_score := Some (player.score (referee.players r ! i)) \<rparr>"
      unfolding tn score_record_no_target by (metis Pair_inject sum.inject(2))
    then show ?thesis by simp
  qed
  ultimately show ?thesis using r' keys by simp
qed

theorem handle_turn_no_valid_record_witness:
  "\<exists>r'. handle_turn ex_none_valid = Inr r'
     \<and> referee.players r' = referee.players ex_none_valid
     \<and> map fst (records r') = map fst (records ex_none_valid)
     \<and> (\<forall>k < length (records ex_none_valid).
           target_value (snd (records r' ! k)) = None
         \<and> score_delta (snd (records r' ! k)) = Some (Fin 0))"
proof (rule handle_turn_no_valid_record)
  show "distinct (map fst (records ex_none_valid))"
    by (simp add: ex_none_valid_def ex_referee_def ex_invalid_def ex_keys)
  show "\<forall>nm \<in> fst ` set (records ex_none_valid).
      player_map (referee.players ex_none_valid) nm \<noteq> None"
    by (simp add: ex_none_valid_def ex_referee_def Referee_init_def ex_invalid_def ex_player_map)
  show "valid_records (records ex_none_valid) = []"
    by (simp add: ex_none_valid_def ex_referee_def ex_invalid_def valid_records_def
        is_valid_record_def TurnRecord_init_def)
qed

subsection \<open>Worked examples\<close>

lemmas ex_defs = ex_referee_def ex_valid_def ex_invalid_def ex_players_def ex_player_def ex_move_def
  ex_llm_def Referee_init_def TurnRecord_init_def with_move_def

lemmas turn_defs = handle_turn_def valid_records_def is_valid_record_def compute_target_def
  List.map_filter_def py_sum_def TARGET_MULTIPLIER_def score_record_def player_map_def
  py_max_def py_min_def fsub_def or_zero_def feq_def

lemma handle_turn_20_40_60: "\<exists>r'. handle_turn ex_20_40_60 = Inr r'
   \<and> map (\<lambda>(nm, rec). target_value rec) (records r') = [Some (Fin 28), Some (Fin 28), Some (Fin 28)]"
  by (simp add: ex_20_40_60_def ex_defs turn_defs ascii_def upt_rec Let_def)

lemma handle_turn_30_40_50: "\<exists>r'. handle_turn ex_30_40_50 = Inr r'
   \<and> map (\<lambda>(nm, rec). (applied_guess rec, target_value rec, distance_from_target rec, score_delta rec, post_score rec)) (take 1 (records r'))
      = [(Some (Fin 30), Some (Fin 28), Some (Fin 2), Some (Fin 98), Some (Fin 108))]
   \<and> map player.score (referee.players r') = [Fin 108, Fin 108, Fin 108]"
  by (simp add: ex_30_40_50_def ex_defs turn_defs ascii_def upt_rec Let_def)

subsection \<open>Valid records\<close>

lemma handle_turn_valid_general:
  assumes "distinct (map fst (records r))"
    and "\<forall>nm \<in> fst ` set (records r). player_map (referee.players r) nm \<noteq> None"
    and "valid_records (records r) \<noteq> []"
  shows "\<exists>r' avg.
       py_truediv (py_sum (List.map_filter applied_guess (valid_records (records r))))
                  (Fin (real (length (valid_records (records r))))) = Inr avg
     \<and> (\<forall>xs. map applied_guess (valid_records (records r)) = map (Some \<circ> Fin) xs
            \<longrightarrow> avg = Fin (sum_list xs / real (length xs)))
     \<and> handle_turn r = Inr r'
     \<and> map fst (records r') = map fst (records r)
     \<and> (\<forall>k < length (records r). is_valid_record (snd (records r ! k)) \<longrightarrow>
          (\<exists>i g. player_map (referee.players r) (fst (records r ! k)) = Some i
             \<and> applied_guess (snd (records r ! k)) = Some g
             \<and> (let target = fmul TARGET_MULTIPLIER avg;
                     guess = py_max (Fin 0) (py_min (Fin 100) g);
                     distance = fabs (fsub guess target);
                     delta = py_max (Fin 0) (fsub (Fin 100) distance);
                     new_score = fadd (player.score (referee.players r ! i)) delta
                 in snd (records r' ! k) = (snd (records r ! k))
                        \<lparr> applied_guess := Some guess,
                          target_value := Some target,
                          distance_from_target := Some distance,
                          score_delta := Some delta,
                          post_score := Some new_score \<rparr>
                  \<and> referee.players r' ! i = (referee.players r ! i) \<lparr> score := new_score \<rparr>)))"
proof -
  from compute_target_valid [OF assms(3)] obtain avg where
    avg: "py_truediv (py_sum (List.map_filter applied_guess (valid_records (records r))))
                  (Fin (real (length (valid_records (records r))))) = Inr avg"
    and tgt: "compute_target (valid_records (records r)) = Inr (Some (fmul TARGET_MULTIPLIER avg))"
    by blast
  from handle_turn_spec [OF assms(1,2)] tgt obtain r' where
    r': "handle_turn r = Inr r'"
    and keys: "map fst (records r') = map fst (records r)"
    and each: "\<forall>k < length (records r). \<exists>i.
            player_map (referee.players r) (fst (records r ! k)) = Some i
          \<and> score_record (Some (fmul TARGET_MULTIPLIER avg)) (referee.players r ! i) (snd (records r ! k))
              = Inr (snd (records r' ! k), referee.players r' ! i)"
    by auto
  have mean: "avg = Fin (sum_list xs / real (length xs))"
    if "map applied_guess (valid_records (records r)) = map (Some \<circ> Fin) xs" for xs
  proof -
    have "length xs = length (valid_records (records r))"
      using that by (metis length_map)
    with avg assms(3) show ?thesis
      by (simp add: map_filter_all_Some [OF that] py_sum_Fin)
  qed
  have one: "\<exists>i g. player_map (referee.players r) (fst (records r ! k)) = Some i
             \<and> applied_guess (snd (records r ! k)) = Some g
             \<and> (let target = fmul TARGET_MULTIPLIER avg;
                     guess = py_max (Fin 0) (py_min (Fin 100) g);
                     distance = fabs (fsub guess target);
                     delta = py_max (Fin 0) (fsub (Fin 100) distance);
                     new_score = fadd (player.score (referee.players r ! i)) delta
                 in snd (records r' ! k) = (snd (records r ! k))
                        \<lparr> applied_guess := Some guess,
                          target_value := Some target,
                          distance_from_target := Some distance,
                          score_delta := Some delta,
                          post_score := Some new_score \<rparr>
                  \<and> referee.players r' ! i = (referee.players r ! i) \<lparr> score := new_score \<rparr>)"
    if k: "k < length (records r)" and v: "is_valid_record (snd (records r ! k))" for k
  proof -
    from each k obtain i where i: "player_map (referee.players r) (fst (records r ! k)) = Some i"
      and body: "score_record (Some (fmul TARGET_MULTIPLIER avg)) (referee.players r ! i) (snd (records r ! k))
              = Inr (snd (records r' ! k), referee.players r' ! i)"
      by blast
    from v obtain g where g: "applied_guess (snd (records r ! k)) = Some g"
      by (auto simp: is_valid_record_def)
    from body show ?thesis
      unfolding score_record_valid [OF v g]
      by (intro exI [of _ i] exI [of _ g]) (simp add: i g Let_def eq_commute)
  qed
  from avg mean r' keys one show ?thesis by blast
qed

text \<open>
  Claim C1. For every turn with at least one valid record (not flagged invalid, applied
  guess present), whose record keys are distinct and name players of the referee,
  \<open>handle_turn\<close> returns; the target is \<open>0.7\<close> times the mean of the valid applied
  guesses (sum divided by count; for finite guesses the arithmetic mean); and every valid
  record ends with its applied guess clamped into [0, 100], \<open>target_value\<close> the target,
  \<open>distance_from_target\<close> the absolute difference of the clamped guess and the target,
  \<open>score_delta = max(0.0, 100.0 - distance)\<close>, and \<open>post_score\<close> the player's score
  after \<open>score_delta\<close> has been added to it; the record's other fields and the player's
  other fields are unchanged. The guesses 20, 40, 60 give every record the target 28,
  and with the guesses 30, 40, 50 (target 28) the guess 30 has distance 2 and
  \<open>score_delta\<close> 98.
\<close>

theorem handle_turn_valid_records:
  "(\<forall>r. distinct (map fst (records r))
      \<longrightarrow> (\<forall>nm \<in> fst ` set (records r). player_map (referee.players r) nm \<noteq> None)
      \<longrightarrow> valid_records (records r) \<noteq> []
      \<longrightarrow> (\<exists>r' avg.
       py_truediv (py_sum (List.map_filter applied_guess (valid_records (records r))))
                  (Fin (real (length (valid_records (records r))))) = Inr avg
     \<and> (\<forall>xs. map applied_guess (valid_records (records r)) = map (Some \<circ> Fin) xs
            \<longrightarrow> avg = Fin (sum_list xs / real (length xs)))
     \<and> handle_turn r = Inr r'
     \<and> map fst (records r') = map fst (records r)
     \<and> (\<forall>k < length (records r). is_valid_record (snd (records r ! k)) \<longrightarrow>
          (\<exists>i g. player_map (referee.players r) (fst (records r ! k)) = Some i
             \<and> applied_guess (snd (records r ! k)) = Some g
             \<and> (let target = fmul TARGET_MULTIPLIER avg;
                     guess = py_max (Fin 0) (py_min (Fin 100) g);
                     distance = fabs (fsub guess target);
                     delta = py_max (Fin 0) (fsub (Fin 100) distance);
                     new_score = fadd (player.score (referee.players r ! i)) delta
                 in snd (records r' ! k) = (snd (records r ! k))
                        \<lparr> applied_guess := Some guess,
                          target_value := Some target,
                          distance_from_target := Some distance,
                          score_delta := Some delta,
                          post_score := Some new_score \<rparr>
                  \<and> referee.players r' ! i = (referee.players r ! i) \<lparr> score := new_score \<rparr>)))))
   \<and> (\<exists>r'. handle_turn ex_20_40_60 = Inr r'
         \<and> map (\<lambda>(nm, rec). target_value rec) (records r')
             = [Some (Fin 28), Some (Fin 28), Some (Fin 28)])
   \<and> (\<exists>r'. handle_turn ex_30_40_50 = Inr r'
         \<and> map (\<lambda>(nm, rec). (applied_guess rec, target_value rec, distance_from_target rec,
                              score_delta rec, post_score rec)) (take 1 (records r'))
             = [(Some (Fin 30), Some (Fin 28), Some (Fin 2), Some (Fin 98), Some (Fin 108))]
         \<and> map player.score (referee.players r') = [Fin 108, Fin 108, Fin 108])"
proof (intro conjI allI impI)
  fix r :: referee
  assume "distinct (map fst (records r))"
    and "\<forall>nm \<in> fst ` set (records r). player_map (referee.players r) nm \<noteq> None"
    and "valid_records (records r) \<noteq> []"
  then show "\<exists>r' avg.
       py_truediv (py_sum (List.map_filter applied_guess (valid_records (records r))))
                  (Fin (real (length (valid_records (records r))))) = Inr avg
     \<and> (\<forall>xs. map applied_guess (valid_records (records r)) = map (Some \<circ> Fin) xs
            \<longrightarrow> avg = Fin (sum_list xs / real (length xs)))
     \<and> handle_turn r = Inr r'
     \<and> map fst (records r') = map fst (records r)
     \<and> (\<forall>k < length (records r). is_valid_record (snd (records r ! k)) \<longrightarrow>
          (\<exists>i g. player_map (referee.players r) (fst (records r ! k)) = Some i
             \<and> applied_guess (snd (records r ! k)) = Some g
             \<and> (let target = fmul TARGET_MULTIPLIER avg;
                     guess = py_max (Fin 0) (py_min (Fin 100) g);
                     distance = fabs (fsub guess target);
                     delta = py_max (Fin 0) (fsub (Fin 100) distance);
                     new_score = fadd (player.score (referee.players r ! i)) delta
                 in snd (records r' ! k) = (snd (records r ! k))
                        \<lparr> applied_guess := Some guess,
                          target_value := Some target,
                          distance_from_target := Some distance,
                          score_delta := Some delta,
                          post_score := Some new_score \<rparr>
                  \<and> referee.players r' ! i = (referee.players r ! i) \<lparr> score := new_score \<rparr>)))"
    by (rule handle_turn_valid_general)
next
  show "\<exists>r'. handle_turn ex_20_40_60 = Inr r'
         \<and> map (\<lambda>(nm, rec). target_value rec) (records r')
             = [Some (Fin 28), Some (Fin 28), Some (Fin 28)]"
    by (rule handle_turn_20_40_60)
next
  show "\<exists>r'. handle_turn ex_30_40_50 = Inr r'
         \<and> map (\<lambda>(nm, rec). (applied_guess rec, target_value rec, distance_from_target rec,
                              score_delta rec, post_score rec)) (take 1 (records r'))
             = [(Some (Fin 30), Some (Fin 28), Some (Fin 2), Some (Fin 98), Some (Fin 108))]
         \<and> map player.score (referee.players r') = [Fin 108, Fin 108, Fin 108]"
    by (rule handle_turn_30_40_50)
qed

theorem handle_turn_valid_records_witness:
  "\<exists>r' avg.
       py_truediv (py_sum (List.map_filter applied_guess (valid_records (records ex_20_40_60))))
                  (Fin (real (length (valid_records (records ex_20_40_60))))) = Inr avg
     \<and> (\<forall>xs. map applied_guess (valid_records (records ex_20_40_60)) = map (Some \<circ> Fin) xs
            \<longrightarrow> avg = Fin (sum_list xs / real (length xs)))
     \<and> handle_turn ex_20_40_60 = Inr r'
     \<and> map fst (records r') = map fst (records ex_20_40_60)
     \<and> (\<forall>k < length (records ex_20_40_60). is_valid_record (snd (records ex_20_40_60 ! k)) \<longrightarrow>
          (\<exists>i g. player_map (referee.players ex_20_40_60) (fst (records ex_20_40_60 ! k)) = Some i
             \<and> applied_guess (snd (records ex_20_40_60 ! k)) = Some g
             \<and> (let target = fmul TARGET_MULTIPLIER avg;
                     guess = py_max (Fin 0) (py_min (Fin 100) g);
                     distance = fabs (fsub guess target);
                     delta = py_max (Fin 0) (fsub (Fin 100) distance);
                     new_score = fadd (player.score (referee.players ex_20_40_60 ! i)) delta
                 in snd (records r' ! k) = (snd (records ex_20_40_60 ! k))
                        \<lparr> applied_guess := Some guess,
                          target_value := Some target,
                          distance_from_target := Some distance,
                          score_delta := Some delta,
                          post_score := Some new_score \<rparr>
                  \<and> referee.players r' ! i
                      = (referee.players ex_20_40_60 ! i) \<lparr> score := new_score \<rparr>)))"
proof (rule handle_turn_valid_records [THEN conjunct1, rule_format])
  show "distinct (map fst (records ex_20_40_60))"
    by (simp add: ex_20_40_60_def ex_referee_def ex_valid_def ex_keys)
  show "player_map (referee.players ex_20_40_60) nm \<noteq> None"
    if "nm \<in> fst ` set (records ex_20_40_60)" for nm
    using that
    by (auto simp: ex_20_40_60_def ex_referee_def Referee_init_def ex_valid_def ex_player_map)
  show "valid_records (records ex_20_40_60) \<noteq> []"
    by (simp add: ex_20_40_60_def ex_defs valid_records_def is_valid_record_def)
qed

subsection \<open>Records that are not valid\<close>

text \<open>
  Claim C2 says that an invalid record of a turn that has a target ends with
  \<open>distance_from_target = None\<close>. It does not: line 229 sets the distance to
  \<open>abs((record.applied_guess or 0.0) - target)\<close> whenever a target exists. Below,
  Strategic's record is invalid, the target is 49 (guesses 50 and 90), and its distance
  ends as 49.
\<close>

theorem handle_turn_invalid_counterexample:
  "\<not> isl (handle_turn ex_one_invalid)
   \<and> is_invalid_move (snd (records ex_one_invalid ! 1))
   \<and> target_value (snd (records (projr (handle_turn ex_one_invalid)) ! 1)) = Some (Fin 49)
   \<and> distance_from_target (snd (records (projr (handle_turn ex_one_invalid)) ! 1)) = Some (Fin 49)
   \<and> distance_from_target (snd (records (projr (handle_turn ex_one_invalid)) ! 1)) \<noteq> None"
  by (simp add: ex_one_invalid_def ex_defs turn_defs ascii_def upt_rec Let_def)

text \<open>
  Claim C2, amended. In a turn with at least one valid record, every record that is not
  valid (flagged invalid, or without an applied guess) ends with \<open>target_value\<close> the
  target, \<open>distance_from_target = |(applied_guess or 0.0) - target|\<close>,
  \<open>score_delta = 0.0\<close> and \<open>post_score\<close> its player's score; its other fields and its
  player are unchanged.
\<close>

theorem handle_turn_invalid_records:
  assumes "distinct (map fst (records r))"
    and "\<forall>nm \<in> fst ` set (records r). player_map (referee.players r) nm \<noteq> None"
    and "valid_records (records r) \<noteq> []"
  shows "\<exists>r' target.
       compute_target (valid_records (records r)) = Inr (Some target)
     \<and> handle_turn r = Inr r'
     \<and> (\<forall>k < length (records r). \<not> is_valid_record (snd (records r ! k)) \<longrightarrow>
          (\<exists>i. player_map (referee.players r) (fst (records r ! k)) = Some i
             \<and> snd (records r' ! k) = (snd (records r ! k))
                   \<lparr> target_value := Some target,
                     distance_from_target :=
                       Some (fabs (fsub (or_zero (applied_guess (snd (records r ! k)))) target)),
                     score_delta := Some (Fin 0),
                     post_score := Some (player.score (referee.players r ! i)) \<rparr>
             \<and> referee.players r' ! i = referee.players r ! i))"
proof -
  from compute_target_valid [OF assms(3)] obtain target where
    tgt: "compute_target (valid_records (records r)) = Inr (Some target)"
    by blast
  from handle_turn_spec [OF assms(1,2)] tgt obtain r' where
    r': "handle_turn r = Inr r'"
    and each: "\<forall>k < length (records r). \<exists>i.
            player_map (referee.players r) (fst (records r ! k)) = Some i
          \<and> score_record (Some target) (referee.players r ! i) (snd (records r ! k))
              = Inr (snd (records r' ! k), referee.players r' ! i)"
    by auto
  have "\<exists>i. player_map (referee.players r) (fst (records r ! k)) = Some i
             \<and> snd (records r' ! k) = (snd (records r ! k))
                   \<lparr> target_value := Some target,
                     distance_from_target :=
                       Some (fabs (fsub (or_zero (applied_guess (snd (records r ! k)))) target)),
                     score_delta := Some (Fin 0),
                     post_score := Some (player.score (referee.players r ! i)) \<rparr>
             \<and> referee.players r' ! i = referee.players r ! i"
    if k: "k < length (records r)" and v: "\<not> is_valid_record (snd (records r ! k))" for k
  proof -
    from each k obtain i where i: "player_map (referee.players r) (fst (records r ! k)) = Some i"
      and body: "score_record (Some target) (referee.players r ! i) (snd (records r ! k))
              = Inr (snd (records r' ! k), referee.players r' ! i)"
      by blast
    from body show ?thesis
      unfolding score_record_not_valid [OF v]
      by (intro exI [of _ i]) (simp add: i eq_commute)
  qed
  with tgt r' show ?thesis by blast
qed

theorem handle_turn_invalid_records_witness:
  "\<exists>r' target.
       compute_target (valid_records (records ex_one_invalid)) = Inr (Some target)
     \<and> handle_turn ex_one_invalid = Inr r'
     \<and> (\<forall>k < length (records ex_one_invalid).
          \<not> is_valid_record (snd (records ex_one_invalid ! k)) \<longrightarrow>
          (\<exists>i. player_map (referee.players ex_one_invalid) (fst (records ex_one_invalid ! k)) = Some i
             \<and> snd (records r' ! k) = (snd (records ex_one_invalid ! k))
                   \<lparr> target_value := Some target,
                     distance_from_target :=
                       Some (fabs (fsub (or_zero (applied_guess (snd (records ex_one_invalid ! k)))) target)),
                     score_delta := Some (Fin 0),
                     post_score := Some (player.score (referee.players ex_one_invalid ! i)) \<rparr>
             \<and> referee.players r' ! i = referee.players ex_one_invalid ! i))"
proof (rule handle_turn_invalid_records)
  show "distinct (map fst (records ex_one_invalid))"
    by (simp add: ex_one_invalid_def ex_referee_def ex_invalid_def ex_valid_def ex_keys)
  show "\<forall>nm \<in> fst ` set (records ex_one_invalid).
      player_map (referee.players ex_one_invalid) nm \<noteq> None"
    by (simp add: ex_one_invalid_def ex_referee_def Referee_init_def ex_invalid_def ex_valid_def
        ex_player_map)
  show "valid_records (records ex_one_invalid) \<noteq> []"
    by (simp add: ex_one_invalid_def ex_defs valid_records_def is_valid_record_def)
qed

subsection \<open>Scores never go down\<close>

lemma fadd_fadd_Fin: "fadd (fadd s (Fin a)) (Fin b) = fadd s (Fin (a + b))"
  by (cases s) (simp_all add: add.assoc)

lemma fadd_nonneg_not_lower: "0 \<le> d \<Longrightarrow> \<not> flt (fadd s (Fin d)) s"
  by (cases s) simp_all

lemma fadd_nonneg_fle: "0 \<le> d \<Longrightarrow> s \<noteq> NaN \<Longrightarrow> fle s (fadd s (Fin d))"
  by (cases s) (auto simp: fle_def feq_def)

lemma score_records_raise:
  assumes "score_records t recs ps = Inr (recs', ps')"
  shows "length ps' = length ps
     \<and> (\<forall>i < length ps. \<exists>d. 0 \<le> d
           \<and> ps' ! i = (ps ! i) \<lparr> score := fadd (player.score (ps ! i)) (Fin d) \<rparr>)
     \<and> (\<forall>rec' \<in> snd ` set recs'. \<exists>d. 0 \<le> d \<and> d \<le> 100 \<and> score_delta rec' = Some (Fin d))"
  using assms
proof (induction recs arbitrary: ps recs' ps')
  case Nil
  then show ?case by (auto intro: exI [of _ 0])
next
  case (Cons x rest)
  obtain nm rec where x: "x = (nm, rec)" by (cases x)
  from Cons.prems obtain i where i: "player_map ps nm = Some i"
    by (auto simp: x split: option.splits)
  then have il: "i < length ps" using player_map_SomeD by blast
  from Cons.prems i obtain rec1 p1 where body: "score_record t (ps ! i) rec = Inr (rec1, p1)"
    by (auto simp: x split: sum.splits)
  from Cons.prems i body obtain recs1 where
    run: "score_records t rest (ps [i := p1]) = Inr (recs1, ps')"
    and recs': "recs' = (nm, rec1) # recs1"
    by (auto simp: x split: sum.splits)
  from score_record_player [OF body] obtain d0 where d0: "0 \<le> d0" "d0 \<le> 100"
    "score_delta rec1 = Some (Fin d0)"
    "p1 = (ps ! i) \<lparr> score := fadd (player.score (ps ! i)) (Fin d0) \<rparr>"
    by blast
  from Cons.IH [OF run] have
    len: "length ps' = length ps"
    and players: "\<forall>j < length ps. \<exists>d. 0 \<le> d
           \<and> ps' ! j = (ps [i := p1] ! j) \<lparr> score := fadd (player.score (ps [i := p1] ! j)) (Fin d) \<rparr>"
    and deltas: "\<forall>rec' \<in> snd ` set recs1. \<exists>d. 0 \<le> d \<and> d \<le> 100 \<and> score_delta rec' = Some (Fin d)"
    by simp_all
  have "\<exists>d. 0 \<le> d \<and> ps' ! j = (ps ! j) \<lparr> score := fadd (player.score (ps ! j)) (Fin d) \<rparr>"
    if j: "j < length ps" for j
  proof -
    from players j obtain d where d: "0 \<le> d"
      "ps' ! j = (ps [i := p1] ! j) \<lparr> score := fadd (player.score (ps [i := p1] ! j)) (Fin d) \<rparr>"
      by blast
    show ?thesis
    proof (cases "j = i")
      case True
      with d il d0 have "ps' ! j = (ps ! j) \<lparr> score := fadd (player.score (ps ! j)) (Fin (d0 + d)) \<rparr>"
        by (simp add: fadd_fadd_Fin)
      moreover have "0 \<le> d0 + d" using d0 d by simp
      ultimately show ?thesis by blast
    next
      case False
      with d show ?thesis by auto
    qed
  qed
  with len deltas d0 recs' show ?case by auto
qed

text \<open>
  Claim C10. Whenever \<open>handle_turn\<close> returns, every record carries a \<open>score_delta\<close>
  that is a number \<open>\<ge> 0\<close>, the players are the same in number, and no player's score
  is lower than before: the new score never compares less than the old one, and is
  greater or equal whenever the old one is not NaN.
\<close>


theorem handle_turn_never_lowers_a_score:
  assumes "handle_turn r = Inr r'"
  shows "(\<forall>rec' \<in> snd ` set (records r').
            \<exists>d. score_delta rec' = Some (Fin d) \<and> 0 \<le> d)
     \<and> length (referee.players r') = length (referee.players r)
     \<and> (\<forall>i < length (referee.players r).
           \<not> flt (player.score (referee.players r' ! i)) (player.score (referee.players r ! i))
         \<and> (player.score (referee.players r ! i) \<noteq> NaN
              \<longrightarrow> fle (player.score (referee.players r ! i))
                      (player.score (referee.players r' ! i))))"
proof -
  from assms obtain t recs' ps' where
    run: "score_records t (records r) (referee.players r) = Inr (recs', ps')"
    and r': "r' = r \<lparr> records := recs', referee.players := ps' \<rparr>"
    by (auto simp: handle_turn_def split: sum.splits)
  from score_records_raise [OF run] have
    len: "length ps' = length (referee.players r)"
    and players: "\<forall>i < length (referee.players r). \<exists>d. 0 \<le> d
           \<and> ps' ! i = (referee.players r ! i)
                \<lparr> score := fadd (player.score (referee.players r ! i)) (Fin d) \<rparr>"
    and deltas: "\<forall>rec' \<in> snd ` set recs'. \<exists>d. 0 \<le> d \<and> d \<le> 100 \<and> score_delta rec' = Some (Fin d)"
    by simp_all
  have "\<not> flt (player.score (ps' ! i)) (player.score (referee.players r ! i))
         \<and> (player.score (referee.players r ! i) \<noteq> NaN
              \<longrightarrow> fle (player.score (referee.players r ! i)) (player.score (ps' ! i)))"
    if "i < length (referee.players r)" for i
  proof -
    from players that obtain d where "0 \<le> d"
      "ps' ! i = (referee.players r ! i)
                \<lparr> score := fadd (player.score (referee.players r ! i)) (Fin d) \<rparr>"
      by blast
    then show ?thesis
      by (simp add: fadd_nonneg_not_lower fadd_nonneg_fle)
  qed
  with len deltas show ?thesis
    unfolding r' by auto
qed


theorem handle_turn_never_lowers_a_score_witness:
  "\<exists>r'. handle_turn ex_one_invalid = Inr r'
     \<and> (\<forall>rec' \<in> snd ` set (records r').
            \<exists>d. score_delta rec' = Some (Fin d) \<and> 0 \<le> d)
     \<and> length (referee.players r') = length (referee.players ex_one_invalid)
     \<and> (\<forall>i < length (referee.players ex_one_invalid).
           \<not> flt (player.score (referee.players r' ! i))
                 (player.score (referee.players ex_one_invalid ! i))
         \<and> (player.score (referee.players ex_one_invalid ! i) \<noteq> NaN
              \<longrightarrow> fle (player.score (referee.players ex_one_invalid ! i))
                      (player.score (referee.players r' ! i))))"
proof -
  have "\<exists>r'. handle_turn ex_one_invalid = Inr r'"
    by (simp add: ex_one_invalid_def ex_defs turn_defs ascii_def upt_rec Let_def)
  then obtain r' where r': "handle_turn ex_one_invalid = Inr r'" ..
  from handle_turn_never_lowers_a_score [OF r'] r' show ?thesis by blast
qed

section \<open>Parsing a response\<close>

lemma strip_trailing_commas_subset: "set (strip_trailing_commas s) \<subseteq> set s"
proof (induction s rule: strip_trailing_commas.induct)
  case 1
  then show ?case by simp
next
  case (2 c cs)
  show ?case
  proof (cases "c = 44")
    case False
    with 2 show ?thesis by auto
  next
    case c: True
    show ?thesis
    proof (cases "dropWhile is_space cs")
      case Nil
      have "strip_trailing_commas (c # cs) = c # strip_trailing_commas cs"
        unfolding strip_trailing_commas.simps(2) [of c cs] Nil by simp
      with 2(1) [OF c Nil] show ?thesis by auto
    next
      case (Cons d ds)
      then have sub: "set (d # ds) \<subseteq> set cs"
        by (metis set_dropWhileD subsetI)
      show ?thesis
      proof (cases "d = 125 \<or> d = 93")
        case True
        have "strip_trailing_commas (c # cs) = d # strip_trailing_commas ds"
          unfolding strip_trailing_commas.simps(2) [of c cs] Cons using c True by simp
        with 2(2) [OF c Cons True] sub show ?thesis by auto
      next
        case False
        have "strip_trailing_commas (c # cs) = c # strip_trailing_commas cs"
          unfolding strip_trailing_commas.simps(2) [of c cs] Cons using c False by simp
        with 2(3) [OF c Cons False] show ?thesis by auto
      qed
    qed
  qed
qed

lemma cosmetic_repair_no_smart_quotes:
  "c \<in> {8220, 8221, 8216, 8217} \<Longrightarrow> c \<notin> set (cosmetic_repair s)"
proof -
  have "set (cosmetic_repair s)
      \<subseteq> set (py_replace (py_replace (py_replace (py_replace s 8220 34) 8221 34) 8216 39) 8217 39)"
    by (simp add: cosmetic_repair_def Let_def strip_trailing_commas_subset)
  moreover have "c \<in> {8220, 8221, 8216, 8217} \<Longrightarrow>
    c \<notin> set (py_replace (py_replace (py_replace (py_replace s 8220 34) 8221 34) 8216 39) 8217 39)"
    by (auto simp: py_replace_def)
  ultimately show "c \<in> {8220, 8221, 8216, 8217} \<Longrightarrow> c \<notin> set (cosmetic_repair s)" by blast
qed

lemma decode_strict: "json_loads e s = Inr d \<Longrightarrow> decode_snippet e s = Inr d"
  by (simp add: decode_snippet_def)

lemma decode_literal:
  "json_loads e s = Inl err \<Longrightarrow> literal_eval e s = Inr d \<Longrightarrow> is_dict d
     \<Longrightarrow> decode_snippet e s = Inr d"
  by (simp add: decode_snippet_def)

lemma decode_cosmetic:
  "json_loads e s = Inl err \<Longrightarrow> (\<forall>d'. literal_eval e s = Inr d' \<longrightarrow> \<not> is_dict d')
     \<Longrightarrow> json_loads e (cosmetic_repair s) = Inr d
     \<Longrightarrow> decode_snippet e s = Inr d"
  by (auto simp: decode_snippet_def split: sum.splits)

lemma decode_fails_iff:
  "(\<exists>err. decode_snippet e s = Inl err) \<longleftrightarrow>
     (\<exists>err. json_loads e s = Inl err)
   \<and> (\<forall>d. literal_eval e s = Inr d \<longrightarrow> \<not> is_dict d)
   \<and> (\<exists>err. json_loads e (cosmetic_repair s) = Inl err)"
  by (auto simp: decode_snippet_def split: sum.splits)

lemma parse_response_decodes:
  "parse_response e response = Inr mv \<Longrightarrow>
     \<exists>d. decode_snippet e (py_slice response (py_find response 123) (py_rfind response 125 + 1)) = Inr d
        \<and> Move_init e d = Inr mv"
  by (auto simp: parse_response_def Let_def split: if_splits sum.splits)

lemma ex_smart_quoted_repair: "cosmetic_repair ex_smart_quoted = ex_json_text"
  by (simp add: cosmetic_repair_def ex_smart_quoted_def ex_json_text_def ascii_def
      py_replace_def is_space_def Let_def)

lemma ex_spans:
  "py_find ex_single_quoted 123 = 0" "py_rfind ex_single_quoted 125 = 36"
  "py_slice ex_single_quoted 0 37 = ex_single_quoted"
  "py_find ex_smart_quoted 123 = 0" "py_rfind ex_smart_quoted 125 = 37"
  "py_slice ex_smart_quoted 0 38 = ex_smart_quoted"
  by (simp_all add: ex_single_quoted_def ex_smart_quoted_def ascii_def py_slice_def py_rfind_def
      Let_def)

lemma Move_init_ex_dict:
  assumes "pydantic_str e (PStr (ascii ''x'')) = Some (ascii ''x'')"
    and "pydantic_float e (PInt 50) = Some (Fin 50)"
  shows "Move_init e ex_dict = Inr (ex_move 50)"
  using assms
  by (simp add: Move_init_def Move_fields_def ex_dict_def ex_move_def clamp_guess_def Let_def
      ascii_def)

lemma parse_single_quoted:
  assumes "json_loads e ex_single_quoted = Inl err"
    and "literal_eval e ex_single_quoted = Inr ex_dict"
    and "pydantic_str e (PStr (ascii ''x'')) = Some (ascii ''x'')"
    and "pydantic_float e (PInt 50) = Some (Fin 50)"
  shows "decode_snippet e ex_single_quoted = Inr ex_dict
       \<and> parse_response e ex_single_quoted = Inr (ex_move 50)"
proof -
  have d: "decode_snippet e ex_single_quoted = Inr ex_dict"
    using assms(1,2) by (rule decode_literal) (simp add: ex_dict_def)
  then show ?thesis
    using Move_init_ex_dict [OF assms(3,4)]
    by (simp add: parse_response_def ex_spans Let_def)
qed

lemma parse_smart_quoted:
  assumes "json_loads e ex_smart_quoted = Inl err"
    and "literal_eval e ex_smart_quoted = Inl err'"
    and "json_loads e ex_json_text = Inr ex_dict"
    and "pydantic_str e (PStr (ascii ''x'')) = Some (ascii ''x'')"
    and "pydantic_float e (PInt 50) = Some (Fin 50)"
  shows "decode_snippet e ex_smart_quoted = Inr ex_dict
       \<and> parse_response e ex_smart_quoted = Inr (ex_move 50)"
proof -
  have d: "decode_snippet e ex_smart_quoted = Inr ex_dict"
    using assms(1,2,3) by (intro decode_cosmetic) (simp_all add: ex_smart_quoted_repair)
  then show ?thesis
    using Move_init_ex_dict [OF assms(4,5)]
    by (simp add: parse_response_def ex_spans Let_def)
qed

lemma parse_no_braces: "py_find s 123 = - 1 \<Longrightarrow> parse_response e s = Inl ValueError"
  by (simp add: parse_response_def Let_def)

lemma ex_chatter_fails: "parse_response e ex_chatter = Inl ValueError"
  by (rule parse_no_braces) (simp add: ex_chatter_def ascii_def)

lemma ex_json_spans:
  "py_find ex_json_text 123 = 0" "py_rfind ex_json_text 125 = 36"
  "py_slice ex_json_text 0 37 = ex_json_text"
  by (simp_all add: ex_json_text_def ascii_def py_slice_def py_rfind_def Let_def)

lemma ex_env_simps:
  "json_loads (ex_env m) = (\<lambda>s. if s = ex_json_text then Inr ex_dict else Inl ValueError)"
  "literal_eval (ex_env m) = (\<lambda>s. if s = ex_json_text \<or> s = ex_single_quoted then Inr ex_dict
                            else Inl SyntaxError)"
  "pydantic_str (ex_env m) (PStr s) = Some s"
  "pydantic_float (ex_env m) (PInt i) = Some (Fin (of_int i))"
  "system_prompt_of (ex_env m) = (\<lambda>p. ascii ''You are '' @ player.name p)"
  "user_prompt_of (ex_env m) = (\<lambda>p t. ascii ''Your guess, '' @ player.name p)"
  "remote (ex_env m) = m"
  by (simp_all add: ex_env_def)

lemma ex_texts_differ:
  "ex_single_quoted \<noteq> ex_json_text" "ex_smart_quoted \<noteq> ex_json_text"
  "ex_smart_quoted \<noteq> ex_single_quoted" "ex_chatter \<noteq> ex_json_text"
  by (simp_all add: ex_single_quoted_def ex_json_text_def ex_smart_quoted_def ex_chatter_def ascii_def)

lemma ex_parse_json: "parse_response (ex_env m) ex_json_text = Inr (ex_move 50)"
proof -
  have "decode_snippet (ex_env m) ex_json_text = Inr ex_dict"
    by (rule decode_strict) (simp add: ex_env_simps)
  moreover have "Move_init (ex_env m) ex_dict = Inr (ex_move 50)"
    by (rule Move_init_ex_dict) (simp_all add: ex_env_simps)
  ultimately show ?thesis
    by (simp add: parse_response_def ex_json_spans Let_def)
qed


section \<open>One player's turn\<close>

subsection \<open>The repair protocol\<close>

lemma make_move_eq:
  "make_move e p t tr =
     (case remote e tr (move_request e p t) of
        Inl err \<Rightarrow> (Inl err, tr @ [move_request e p t])
      | Inr text \<Rightarrow>
          (Inr \<lparr> reply_response = text,
                 reply_system_prompt = system_prompt_of e p,
                 reply_user_prompt = user_prompt_of e p t,
                 reply_model_name = llm.model_name (llm p),
                 reply_temperature = Some (llm.temperature (llm p)) \<rparr>,
           tr @ [move_request e p t]))"
  by (simp add: make_move_def send_def move_request_def Let_def split: sum.splits)

lemma ask_helpers_spec:
  assumes "ask_helpers e p original ps tr = (res, tr')"
  defines "cs \<equiv> map (helper_request e original) (filter (\<lambda>h. player.name h \<noteq> player.name p) ps)"
  shows "(res = None \<longrightarrow> tr' = tr @ cs
            \<and> (\<forall>k < length cs. \<exists>err. remote e (tr @ take k cs) (cs ! k) = Inl err))
       \<and> (\<forall>text. res = Some text \<longrightarrow>
            (\<exists>k < length cs. tr' = tr @ take (Suc k) cs
               \<and> remote e (tr @ take k cs) (cs ! k) = Inr text
               \<and> (\<forall>j < k. \<exists>err. remote e (tr @ take j cs) (cs ! j) = Inl err)))"
  using assms(1) unfolding cs_def
proof (induction ps arbitrary: tr)
  case Nil
  then show ?case by simp
next
  case (Cons h rest)
  let ?cs = "map (helper_request e original) (filter (\<lambda>h. player.name h \<noteq> player.name p) rest)"
  show ?case
  proof (cases "player.name h = player.name p")
    case True
    with Cons.prems have "ask_helpers e p original rest tr = (res, tr')" by simp
    from Cons.IH [OF this] True show ?thesis by simp
  next
    case False
    let ?c = "helper_request e original h"
    have cs: "map (helper_request e original) (filter (\<lambda>h. player.name h \<noteq> player.name p) (h # rest))
        = ?c # ?cs" using False by simp
    show ?thesis
    proof (cases "remote e tr ?c")
      case (Inr reply)
      with Cons.prems False have "res = Some reply" "tr' = tr @ [?c]"
        by (simp_all add: send_def helper_request_def Let_def)
      with Inr show ?thesis unfolding cs by (auto intro!: exI [of _ 0])
    next
      case (Inl err)
      with Cons.prems False have run: "ask_helpers e p original rest (tr @ [?c]) = (res, tr')"
        by (simp add: send_def helper_request_def Let_def)
      note IH = Cons.IH [OF run]
      have none: "tr' = tr @ ?c # ?cs
            \<and> (\<forall>k < length (?c # ?cs). \<exists>err. remote e (tr @ take k (?c # ?cs)) ((?c # ?cs) ! k) = Inl err)"
        if "res = None"
      proof -
        from IH that have a: "tr' = (tr @ [?c]) @ ?cs"
          and b: "\<forall>k < length ?cs. \<exists>err. remote e ((tr @ [?c]) @ take k ?cs) (?cs ! k) = Inl err"
          by blast+
        have "\<exists>err. remote e (tr @ take k (?c # ?cs)) ((?c # ?cs) ! k) = Inl err"
          if "k < length (?c # ?cs)" for k
          using that b Inl by (cases k) auto
        with a show ?thesis by simp
      qed
      have some: "\<exists>k < length (?c # ?cs). tr' = tr @ take (Suc k) (?c # ?cs)
               \<and> remote e (tr @ take k (?c # ?cs)) ((?c # ?cs) ! k) = Inr reply
               \<and> (\<forall>j < k. \<exists>err. remote e (tr @ take j (?c # ?cs)) ((?c # ?cs) ! j) = Inl err)"
        if "res = Some reply" for reply
      proof -
        from IH that obtain k where k: "k < length ?cs" "tr' = (tr @ [?c]) @ take (Suc k) ?cs"
          "remote e ((tr @ [?c]) @ take k ?cs) (?cs ! k) = Inr reply"
          "\<forall>j < k. \<exists>err. remote e ((tr @ [?c]) @ take j ?cs) (?cs ! j) = Inl err"
          by blast
        have "\<exists>err. remote e (tr @ take j (?c # ?cs)) ((?c # ?cs) ! j) = Inl err"
          if "j < Suc k" for j
          using that k(4) Inl by (cases j) auto
        with k(1,2,3) show ?thesis
          by (intro exI [of _ "Suc k"]) simp
      qed
      from none some show ?thesis unfolding cs by blast
    qed
  qed
qed

lemma quarter_budget: "MAX_TOKENS div 4 = 150" "4 * (MAX_TOKENS div 4) = MAX_TOKENS"
  by (simp_all add: MAX_TOKENS_def)

lemma repair_response_same_agent:
  assumes "remote e tr (repair_request e original p) = Inr reply"
  shows "repair_response e ref p original tr = (Inr reply, tr @ [repair_request e original p])"
  using assms by (simp add: repair_response_def send_def repair_request_def Let_def)

lemma repair_response_helpers:
  fixes ref :: referee
  assumes "remote e tr (repair_request e original p) = Inl err"
  defines "cs \<equiv> map (helper_request e original) (helpers_of ref p)"
    and "tr0 \<equiv> tr @ [repair_request e original p]"
  shows "(\<exists>k < length cs. \<exists>reply.
            repair_response e ref p original tr = (Inr reply, tr0 @ take (Suc k) cs)
          \<and> remote e (tr0 @ take k cs) (cs ! k) = Inr reply
          \<and> (\<forall>j < k. \<exists>err'. remote e (tr0 @ take j cs) (cs ! j) = Inl err'))
       \<or> (repair_response e ref p original tr = (Inl err, tr0 @ cs)
          \<and> (\<forall>k < length cs. \<exists>err'. remote e (tr0 @ take k cs) (cs ! k) = Inl err'))"
proof -
  obtain res tr' where run: "ask_helpers e p original (referee.players ref) tr0 = (res, tr')"
    by (cases "ask_helpers e p original (referee.players ref) tr0")
  then have rr: "repair_response e ref p original tr
      = (case res of Some reply \<Rightarrow> (Inr reply, tr') | None \<Rightarrow> (Inl err, tr'))"
    using assms(1)
    by (simp add: repair_response_def send_def repair_request_def tr0_def Let_def)
  note spec = ask_helpers_spec [OF run, folded helpers_of_def, folded cs_def]
  show ?thesis
  proof (cases res)
    case None
    with spec rr show ?thesis by simp
  next
    case (Some reply)
    with spec obtain k where "k < length cs" "tr' = tr0 @ take (Suc k) cs"
      "remote e (tr0 @ take k cs) (cs ! k) = Inr reply"
      "\<forall>j < k. \<exists>err'. remote e (tr0 @ take j cs) (cs ! j) = Inl err'"
      by blast
    with rr Some show ?thesis by auto
  qed
qed

lemma repair_response_first_call:
  "\<exists>res rest. repair_response e ref p original tr
      = (res, tr @ repair_request e original p # rest)"
proof (cases "remote e tr (repair_request e original p)")
  case (Inr reply)
  from repair_response_same_agent [OF this] show ?thesis by simp
next
  case (Inl err)
  from repair_response_helpers [OF this, of ref] show ?thesis by auto
qed


subsection \<open>The cases of do_turn_for_player\<close>

lemma do_turn_for_player_cases:
  "do_turn_for_player e ref p tr =
     (case remote e tr (move_request e p (referee.turn ref)) of
        Inl err \<Rightarrow>
          (Inr (TurnRecord_init (player.name p) (referee.turn ref) None True []),
           tr @ [move_request e p (referee.turn ref)])
      | Inr resp_text \<Rightarrow>
          (let response = \<lparr> reply_response = resp_text,
                   reply_system_prompt = system_prompt_of e p,
                   reply_user_prompt = user_prompt_of e p (referee.turn ref),
                   reply_model_name = llm.model_name (llm p),
                   reply_temperature = Some (llm.temperature (llm p)) \<rparr>;
               tr1 = tr @ [move_request e p (referee.turn ref)];
               invalid = with_metadata response
                          (TurnRecord_init (player.name p) (referee.turn ref) None True resp_text)
           in case parse_response e resp_text of
                Inr mv \<Rightarrow>
                  (Inr (with_move p mv (with_metadata response
                     (TurnRecord_init (player.name p) (referee.turn ref) (Some mv) False
                        resp_text))), tr1)
              | Inl parse_e \<Rightarrow>
                  (case repair_response e ref p resp_text tr1 of
                     (Inl repair_e, tr2) \<Rightarrow> (Inr invalid, tr2)
                   | (Inr repaired, tr2) \<Rightarrow>
                       (case parse_response e repaired of
                          Inl repair_e \<Rightarrow> (Inr invalid, tr2)
                        | Inr mv \<Rightarrow>
                            (Inr (with_move p mv
                               ((with_metadata response
                                  (TurnRecord_init (player.name p) (referee.turn ref) (Some mv)
                                     False repaired))
                                \<lparr> repair_attempted := True,
                                  repaired_response := repaired \<rparr>)), tr2)))))"
  by (simp add: do_turn_for_player_def make_move_eq Let_def split: sum.splits prod.splits)

lemma record_simps:
  "is_invalid_move (TurnRecord_init nm t mv bad raw) = bad"
  "raw_response (TurnRecord_init nm t mv bad raw) = raw"
  "move (TurnRecord_init nm t mv bad raw) = mv"
  "turn_record.name (TurnRecord_init nm t mv bad raw) = nm"
  "turn_record.turn (TurnRecord_init nm t mv bad raw) = t"
  "repair_attempted (TurnRecord_init nm t mv bad raw) = False"
  "repaired_response (TurnRecord_init nm t mv bad raw) = []"
  "is_invalid_move (with_metadata response rec) = is_invalid_move rec"
  "raw_response (with_metadata response rec) = raw_response rec"
  "move (with_metadata response rec) = move rec"
  "turn_record.name (with_metadata response rec) = turn_record.name rec"
  "turn_record.turn (with_metadata response rec) = turn_record.turn rec"
  "repair_attempted (with_metadata response rec) = repair_attempted rec"
  "repaired_response (with_metadata response rec) = repaired_response rec"
  "is_invalid_move (with_move p m rec) = is_invalid_move rec"
  "raw_response (with_move p m rec) = raw_response rec"
  "move (with_move p m rec) = move rec"
  "turn_record.name (with_move p m rec) = turn_record.name rec"
  "turn_record.turn (with_move p m rec) = turn_record.turn rec"
  "repair_attempted (with_move p m rec) = repair_attempted rec"
  "repaired_response (with_move p m rec) = repaired_response rec"
  "applied_guess (with_move p m rec) = Some (move.guess m)"
  "turn_record.guess (with_move p m rec) = Some (move.guess m)"
  by (simp_all add: TurnRecord_init_def with_metadata_def with_move_def Let_def)

lemma do_turn_for_player_total:
  "\<exists>rec tr'. do_turn_for_player e ref p tr = (Inr rec, tr')
      \<and> turn_record.name rec = player.name p
      \<and> turn_record.turn rec = referee.turn ref"
  by (simp add: do_turn_for_player_cases record_simps Let_def split: sum.splits prod.splits)

lemma do_turn_for_player_parsed:
  assumes "remote e tr (move_request e p (referee.turn ref)) = Inr reply"
    and "parse_response e reply = Inr mv"
  shows "\<exists>rec. do_turn_for_player e ref p tr = (Inr rec, tr @ [move_request e p (referee.turn ref)])
     \<and> \<not> is_invalid_move rec \<and> \<not> repair_attempted rec \<and> move rec = Some mv
     \<and> raw_response rec = reply \<and> applied_guess rec = Some (move.guess mv)"
  using assms by (simp add: do_turn_for_player_cases record_simps Let_def)

lemma do_turn_for_player_repaired:
  assumes "remote e tr (move_request e p (referee.turn ref)) = Inr reply"
    and "parse_response e reply = Inl perr"
    and "repair_response e ref p reply (tr @ [move_request e p (referee.turn ref)]) = (Inr repaired, tr2)"
    and "parse_response e repaired = Inr mv"
  shows "\<exists>rec. do_turn_for_player e ref p tr = (Inr rec, tr2)
     \<and> \<not> is_invalid_move rec \<and> repair_attempted rec \<and> move rec = Some mv
     \<and> repaired_response rec = repaired \<and> raw_response rec = repaired"
  using assms by (simp add: do_turn_for_player_cases record_simps Let_def)

lemma do_turn_for_player_unrepaired:
  assumes "remote e tr (move_request e p (referee.turn ref)) = Inr reply"
    and "parse_response e reply = Inl perr"
    and "repair_response e ref p reply (tr @ [move_request e p (referee.turn ref)]) = (res, tr2)"
    and "\<forall>repaired. res = Inr repaired \<longrightarrow> (\<exists>rerr. parse_response e repaired = Inl rerr)"
  shows "\<exists>rec. do_turn_for_player e ref p tr = (Inr rec, tr2)
     \<and> is_invalid_move rec \<and> \<not> repair_attempted rec \<and> move rec = None
     \<and> raw_response rec = reply"
  using assms
  by (cases res) (auto simp: do_turn_for_player_cases record_simps Let_def)

lemma do_turn_for_player_no_reply:
  assumes "remote e tr (move_request e p (referee.turn ref)) = Inl err"
  shows "\<exists>rec. do_turn_for_player e ref p tr = (Inr rec, tr @ [move_request e p (referee.turn ref)])
     \<and> is_invalid_move rec \<and> move rec = None \<and> raw_response rec = []"
  using assms by (simp add: do_turn_for_player_cases record_simps Let_def)

subsection \<open>All players of a turn\<close>

lemma collect_records_total:
  "\<exists>recs tr'. collect_records e ref ps tr = (Inr recs, tr')
      \<and> map turn_record.name recs = map player.name ps"
proof (induction ps arbitrary: tr)
  case Nil
  then show ?case by simp
next
  case (Cons p ps)
  obtain rec tr1 where one: "do_turn_for_player e ref p tr = (Inr rec, tr1)"
    "turn_record.name rec = player.name p"
    using do_turn_for_player_total by blast
  from Cons.IH [of tr1] obtain recs tr2 where
    "collect_records e ref ps tr1 = (Inr recs, tr2)" "map turn_record.name recs = map player.name ps"
    by blast
  with one show ?case by simp
qed

lemma dict_set_keys:
  "map fst (dict_set d k v) = (if k \<in> fst ` set d then map fst d else map fst d @ [k])"
  by (induction d) (force split: if_splits)+

lemma store_records_total:
  assumes "\<forall>rec \<in> set recs. player_map (referee.players ref) (turn_record.name rec) \<noteq> None"
    and "distinct (map fst (records ref))"
    and "\<forall>nm \<in> fst ` set (records ref). player_map (referee.players ref) nm \<noteq> None"
  shows "\<exists>ref'. store_records ref recs = Inr ref'
     \<and> referee.players ref' = referee.players ref
     \<and> referee.turn ref' = referee.turn ref
     \<and> distinct (map fst (records ref'))
     \<and> (\<forall>nm \<in> fst ` set (records ref'). player_map (referee.players ref') nm \<noteq> None)"
  using assms
proof (induction recs arbitrary: ref)
  case Nil
  then show ?case by simp
next
  case (Cons rec recs)
  let ?ref1 = "ref \<lparr> records := dict_set (records ref) (turn_record.name rec) rec \<rparr>"
  from Cons.prems(1) obtain i where i: "player_map (referee.players ref) (turn_record.name rec) = Some i"
    by auto
  have keys: "set (map fst (records ?ref1)) = insert (turn_record.name rec) (fst ` set (records ref))"
    by (auto simp: dict_set_keys)
  have d: "distinct (map fst (records ?ref1))"
    using Cons.prems(2) by (simp add: dict_set_keys)
  have k: "\<forall>nm \<in> fst ` set (records ?ref1). player_map (referee.players ?ref1) nm \<noteq> None"
    using Cons.prems(3) i keys by auto
  have r: "\<forall>rec \<in> set recs. player_map (referee.players ?ref1) (turn_record.name rec) \<noteq> None"
    using Cons.prems(1) by simp
  from Cons.IH [OF r d k] i show ?case by simp
qed

lemma do_turn_total:
  assumes "referee.players ref \<noteq> []"
    and "distinct (map fst (records ref))"
    and "\<forall>nm \<in> fst ` set (records ref). player_map (referee.players ref) nm \<noteq> None"
  shows "\<exists>ref' tr'. do_turn e ref tr = (Inr ref', tr')
     \<and> map player.name (referee.players ref') = map player.name (referee.players ref)"
proof -
  obtain recs tr' where recs: "collect_records e ref (referee.players ref) tr = (Inr recs, tr')"
    "map turn_record.name recs = map player.name (referee.players ref)"
    using collect_records_total by blast
  have "\<forall>rec \<in> set recs. player_map (referee.players ref) (turn_record.name rec) \<noteq> None"
  proof
    fix rec assume "rec \<in> set recs"
    then have "turn_record.name rec \<in> set (map turn_record.name recs)" by simp
    then have "turn_record.name rec \<in> player.name ` set (referee.players ref)"
      unfolding recs(2) by simp
    then show "player_map (referee.players ref) (turn_record.name rec) \<noteq> None"
      using player_map_known by fastforce
  qed
  from store_records_total [OF this assms(2,3)] obtain ref1 where ref1:
    "store_records ref recs = Inr ref1" "referee.players ref1 = referee.players ref"
    "distinct (map fst (records ref1))"
    "\<forall>nm \<in> fst ` set (records ref1). player_map (referee.players ref1) nm \<noteq> None"
    by blast
  from handle_turn_spec [OF ref1(3,4)] obtain ref2 where
    "handle_turn ref1 = Inr ref2"
    "map player.name (referee.players ref2) = map player.name (referee.players ref1)"
    by blast
  with recs ref1 assms(1) show ?thesis by (simp add: do_turn_def)
qed

section \<open>The claims about parsing and one player's turn\<close>

lemma ex_requests:
  "callee (move_request e p t) = player.name p"
  "call_max_tokens (move_request e p t) = MAX_TOKENS"
  "callee (repair_request e orig p) = player.name p"
  "call_max_tokens (repair_request e orig p) = 150"
  "call_user (repair_request e orig p) = repair_user orig"
  "callee (helper_request e orig p) = player.name p"
  "call_max_tokens (helper_request e orig p) = 150"
  "call_user (helper_request e orig p) = helper_prompt orig"
  by (simp_all add: move_request_def repair_request_def helper_request_def llm_request_def
      MAX_TOKENS_def)


lemma ex_names:
  "player.name (ex_player nm s) = ascii nm"
  "ascii ''Strategic'' \<noteq> ascii ''Vanilla''"
  "ascii ''Agressor'' \<noteq> ascii ''Vanilla''"
  "ascii ''Agressor'' \<noteq> ascii ''Strategic''"
  "ascii ''Vanilla'' \<noteq> ascii ''Strategic''"
  "ascii ''Vanilla'' \<noteq> ascii ''Agressor''"
  "ascii ''Strategic'' \<noteq> ascii ''Agressor''"
  by (simp_all add: ex_player_def ascii_def)

lemma llm_request_simps:
  "callee (llm_request p sys usr n) = player.name p"
  "call_max_tokens (llm_request p sys usr n) = n"
  by (simp_all add: llm_request_def)


text \<open>
  Claim C4. \<open>parse_response\<close> decodes the span from the first \<open>{\<close> to the last \<open>}\<close>
  by three decoders in order, for every behaviour of the libraries: the strict JSON
  decoder's result stands when it returns; if it raises, the literal decoder's result
  stands when it is a mapping; if that raises or returns something else, the cosmetic
  repair is applied and the strict decoder is tried once more; decoding fails exactly
  when all three fail; a Move that is returned is built from the decoded mapping. The
  cosmetic repair leaves no curly quotation mark, and turns the curly-quoted text with a
  trailing comma into the plain JSON text. Where the strict decoder rejects the
  single-quoted text and the literal decoder reads it, \<open>parse_response\<close> returns the
  Move through the literal decoder; where both reject the curly-quoted text and the
  strict decoder reads the repaired text, it returns the Move through the cosmetic
  repair; and a reply that parses is accepted after the one move request, with no
  reformatting request sent.
\<close>

theorem parse_response_decoding_order:
  "(\<forall>e s d. json_loads e s = Inr d \<longrightarrow> decode_snippet e s = Inr d)
 \<and> (\<forall>e s err d. json_loads e s = Inl err \<and> literal_eval e s = Inr d \<and> is_dict d
        \<longrightarrow> decode_snippet e s = Inr d)
 \<and> (\<forall>e s err d. json_loads e s = Inl err
        \<and> (\<forall>d'. literal_eval e s = Inr d' \<longrightarrow> \<not> is_dict d')
        \<and> json_loads e (cosmetic_repair s) = Inr d
        \<longrightarrow> decode_snippet e s = Inr d)
 \<and> (\<forall>e s. (\<exists>err. decode_snippet e s = Inl err) \<longleftrightarrow>
        (\<exists>err. json_loads e s = Inl err)
      \<and> (\<forall>d. literal_eval e s = Inr d \<longrightarrow> \<not> is_dict d)
      \<and> (\<exists>err. json_loads e (cosmetic_repair s) = Inl err))
 \<and> (\<forall>e response mv. parse_response e response = Inr mv \<longrightarrow>
        (\<exists>d. decode_snippet e
                (py_slice response (py_find response 123) (py_rfind response 125 + 1)) = Inr d
           \<and> Move_init e d = Inr mv))
 \<and> (\<forall>s c. c \<in> {8220, 8221, 8216, 8217} \<longrightarrow> c \<notin> set (cosmetic_repair s))
 \<and> cosmetic_repair ex_smart_quoted = ex_json_text
 \<and> (\<forall>e err. json_loads e ex_single_quoted = Inl err
        \<and> literal_eval e ex_single_quoted = Inr ex_dict
        \<and> pydantic_str e (PStr (ascii ''x'')) = Some (ascii ''x'')
        \<and> pydantic_float e (PInt 50) = Some (Fin 50)
        \<longrightarrow> decode_snippet e ex_single_quoted = Inr ex_dict
          \<and> parse_response e ex_single_quoted = Inr (ex_move 50))
 \<and> (\<forall>e err err'. json_loads e ex_smart_quoted = Inl err
        \<and> literal_eval e ex_smart_quoted = Inl err'
        \<and> json_loads e ex_json_text = Inr ex_dict
        \<and> pydantic_str e (PStr (ascii ''x'')) = Some (ascii ''x'')
        \<and> pydantic_float e (PInt 50) = Some (Fin 50)
        \<longrightarrow> decode_snippet e ex_smart_quoted = Inr ex_dict
          \<and> parse_response e ex_smart_quoted = Inr (ex_move 50))
 \<and> (\<forall>e ref p tr reply mv.
        remote e tr (move_request e p (referee.turn ref)) = Inr reply
        \<and> parse_response e reply = Inr mv
        \<longrightarrow> (\<exists>rec. do_turn_for_player e ref p tr
                     = (Inr rec, tr @ [move_request e p (referee.turn ref)])
              \<and> \<not> is_invalid_move rec \<and> \<not> repair_attempted rec \<and> move rec = Some mv))"
proof -
  have a: "(\<forall>e s d. json_loads e s = Inr d \<longrightarrow> decode_snippet e s = Inr d)"
    using decode_strict by blast
  have b: "(\<forall>e s err d. json_loads e s = Inl err \<and> literal_eval e s = Inr d \<and> is_dict d
        \<longrightarrow> decode_snippet e s = Inr d)"
    using decode_literal by blast
  have c: "(\<forall>e s err d. json_loads e s = Inl err
        \<and> (\<forall>d'. literal_eval e s = Inr d' \<longrightarrow> \<not> is_dict d')
        \<and> json_loads e (cosmetic_repair s) = Inr d
        \<longrightarrow> decode_snippet e s = Inr d)"
    using decode_cosmetic by blast
  have d: "(\<forall>e s. (\<exists>err. decode_snippet e s = Inl err) \<longleftrightarrow>
        (\<exists>err. json_loads e s = Inl err)
      \<and> (\<forall>d. literal_eval e s = Inr d \<longrightarrow> \<not> is_dict d)
      \<and> (\<exists>err. json_loads e (cosmetic_repair s) = Inl err))"
    using decode_fails_iff by simp
  have e: "(\<forall>e response mv. parse_response e response = Inr mv \<longrightarrow>
        (\<exists>d. decode_snippet e
                (py_slice response (py_find response 123) (py_rfind response 125 + 1)) = Inr d
           \<and> Move_init e d = Inr mv))"
    using parse_response_decodes by blast
  have f: "(\<forall>s c. c \<in> {8220, 8221, 8216, 8217} \<longrightarrow> c \<notin> set (cosmetic_repair s))"
    using cosmetic_repair_no_smart_quotes by blast
  have g: "cosmetic_repair ex_smart_quoted = ex_json_text"
    by (rule ex_smart_quoted_repair)
  have h: "(\<forall>e err. json_loads e ex_single_quoted = Inl err
        \<and> literal_eval e ex_single_quoted = Inr ex_dict
        \<and> pydantic_str e (PStr (ascii ''x'')) = Some (ascii ''x'')
        \<and> pydantic_float e (PInt 50) = Some (Fin 50)
        \<longrightarrow> decode_snippet e ex_single_quoted = Inr ex_dict
          \<and> parse_response e ex_single_quoted = Inr (ex_move 50))"
    using parse_single_quoted by blast
  have i: "(\<forall>e err err'. json_loads e ex_smart_quoted = Inl err
        \<and> literal_eval e ex_smart_quoted = Inl err'
        \<and> json_loads e ex_json_text = Inr ex_dict
        \<and> pydantic_str e (PStr (ascii ''x'')) = Some (ascii ''x'')
        \<and> pydantic_float e (PInt 50) = Some (Fin 50)
        \<longrightarrow> decode_snippet e ex_smart_quoted = Inr ex_dict
          \<and> parse_response e ex_smart_quoted = Inr (ex_move 50))"
    using parse_smart_quoted by blast
  have j: "(\<forall>e ref p tr reply mv.
        remote e tr (move_request e p (referee.turn ref)) = Inr reply
        \<and> parse_response e reply = Inr mv
        \<longrightarrow> (\<exists>rec. do_turn_for_player e ref p tr
                     = (Inr rec, tr @ [move_request e p (referee.turn ref)])
              \<and> \<not> is_invalid_move rec \<and> \<not> repair_attempted rec \<and> move rec = Some mv))"
    using do_turn_for_player_parsed by blast
  show ?thesis
    by (intro conjI a b c d e f g h i j)
qed

theorem parse_response_decoding_order_witness:
  "decode_snippet (ex_env ex_models) ex_single_quoted = Inr ex_dict
 \<and> parse_response (ex_env ex_models) ex_single_quoted = Inr (ex_move 50)
 \<and> decode_snippet (ex_env ex_models) ex_smart_quoted = Inr ex_dict
 \<and> parse_response (ex_env ex_models) ex_smart_quoted = Inr (ex_move 50)"
proof -
  note single_quoted = parse_response_decoding_order
    [THEN conjunct2, THEN conjunct2, THEN conjunct2, THEN conjunct2, THEN conjunct2,
     THEN conjunct2, THEN conjunct2, THEN conjunct1, rule_format]
  note smart_quoted = parse_response_decoding_order
    [THEN conjunct2, THEN conjunct2, THEN conjunct2, THEN conjunct2, THEN conjunct2,
     THEN conjunct2, THEN conjunct2, THEN conjunct2, THEN conjunct1, rule_format]
  have single: "json_loads (ex_env ex_models) ex_single_quoted = Inl ValueError
        \<and> literal_eval (ex_env ex_models) ex_single_quoted = Inr ex_dict
        \<and> pydantic_str (ex_env ex_models) (PStr (ascii ''x'')) = Some (ascii ''x'')
        \<and> pydantic_float (ex_env ex_models) (PInt 50) = Some (Fin 50)"
    by (simp add: ex_env_simps ex_texts_differ)
  have smart: "json_loads (ex_env ex_models) ex_smart_quoted = Inl ValueError
        \<and> literal_eval (ex_env ex_models) ex_smart_quoted = Inl SyntaxError
        \<and> json_loads (ex_env ex_models) ex_json_text = Inr ex_dict
        \<and> pydantic_str (ex_env ex_models) (PStr (ascii ''x'')) = Some (ascii ''x'')
        \<and> pydantic_float (ex_env ex_models) (PInt 50) = Some (Fin 50)"
    by (simp add: ex_env_simps ex_texts_differ)
  from single_quoted [OF single] have "decode_snippet (ex_env ex_models) ex_single_quoted = Inr ex_dict
          \<and> parse_response (ex_env ex_models) ex_single_quoted = Inr (ex_move 50)" .
  moreover from smart_quoted [OF smart] have "decode_snippet (ex_env ex_models) ex_smart_quoted = Inr ex_dict
          \<and> parse_response (ex_env ex_models) ex_smart_quoted = Inr (ex_move 50)" .
  ultimately show ?thesis by simp
qed

text \<open>
  Claim C6. For every environment, referee, player and trace, \<open>do_turn_for_player\<close>
  returns a record of that player and never an error. When the model call raises, the
  record is invalid, carries no move, and its raw response is empty (there is no reply
  to keep). When the reply does not parse and the repair raises, or returns a text that
  does not parse either, the record is invalid, carries no move and keeps the reply as
  its raw response. Collecting the records of any list of players yields one record per
  player, in order, whatever happens to the others, and the turn of a referee with at
  least one player and no records yet returns a referee, not an error. The workers of
  the source run concurrently; here the players are served one after the other.
\<close>

theorem do_turn_for_player_isolates_failures:
  "(\<forall>e ref p tr. \<exists>rec tr'. do_turn_for_player e ref p tr = (Inr rec, tr')
        \<and> turn_record.name rec = player.name p)
 \<and> (\<forall>e ref p tr err. remote e tr (move_request e p (referee.turn ref)) = Inl err \<longrightarrow>
        (\<exists>rec. do_turn_for_player e ref p tr
                  = (Inr rec, tr @ [move_request e p (referee.turn ref)])
           \<and> is_invalid_move rec \<and> move rec = None \<and> raw_response rec = []))
 \<and> (\<forall>e ref p tr reply perr res tr2.
        remote e tr (move_request e p (referee.turn ref)) = Inr reply
        \<and> parse_response e reply = Inl perr
        \<and> repair_response e ref p reply (tr @ [move_request e p (referee.turn ref)]) = (res, tr2)
        \<and> (\<forall>repaired. res = Inr repaired \<longrightarrow> (\<exists>rerr. parse_response e repaired = Inl rerr))
        \<longrightarrow> (\<exists>rec. do_turn_for_player e ref p tr = (Inr rec, tr2)
              \<and> is_invalid_move rec \<and> move rec = None \<and> raw_response rec = reply))
 \<and> (\<forall>e ref ps tr. \<exists>recs tr'. collect_records e ref ps tr = (Inr recs, tr')
        \<and> map turn_record.name recs = map player.name ps)
 \<and> (\<forall>e ref tr. referee.players ref \<noteq> [] \<and> records ref = []
        \<longrightarrow> (\<exists>ref' tr'. do_turn e ref tr = (Inr ref', tr')))"
proof -
  have a: "\<forall>e ref p tr. \<exists>rec tr'. do_turn_for_player e ref p tr = (Inr rec, tr')
        \<and> turn_record.name rec = player.name p"
    using do_turn_for_player_total by blast
  have b: "\<forall>e ref p tr err. remote e tr (move_request e p (referee.turn ref)) = Inl err \<longrightarrow>
        (\<exists>rec. do_turn_for_player e ref p tr
                  = (Inr rec, tr @ [move_request e p (referee.turn ref)])
           \<and> is_invalid_move rec \<and> move rec = None \<and> raw_response rec = [])"
    using do_turn_for_player_no_reply by blast
  have c: "\<forall>e ref p tr reply perr res tr2.
        remote e tr (move_request e p (referee.turn ref)) = Inr reply
        \<and> parse_response e reply = Inl perr
        \<and> repair_response e ref p reply (tr @ [move_request e p (referee.turn ref)]) = (res, tr2)
        \<and> (\<forall>repaired. res = Inr repaired \<longrightarrow> (\<exists>rerr. parse_response e repaired = Inl rerr))
        \<longrightarrow> (\<exists>rec. do_turn_for_player e ref p tr = (Inr rec, tr2)
              \<and> is_invalid_move rec \<and> move rec = None \<and> raw_response rec = reply)"
  proof (intro allI impI)
    fix e :: env and ref :: referee and p tr reply perr res tr2
    assume h: "remote e tr (move_request e p (referee.turn ref)) = Inr reply
        \<and> parse_response e reply = Inl perr
        \<and> repair_response e ref p reply (tr @ [move_request e p (referee.turn ref)]) = (res, tr2)
        \<and> (\<forall>repaired. res = Inr repaired \<longrightarrow> (\<exists>rerr. parse_response e repaired = Inl rerr))"
    from do_turn_for_player_unrepaired [of e tr p ref reply perr res tr2] h
    show "\<exists>rec. do_turn_for_player e ref p tr = (Inr rec, tr2)
              \<and> is_invalid_move rec \<and> move rec = None \<and> raw_response rec = reply"
      by blast
  qed
  have d: "\<forall>e ref ps tr. \<exists>recs tr'. collect_records e ref ps tr = (Inr recs, tr')
        \<and> map turn_record.name recs = map player.name ps"
    using collect_records_total by blast
  have e: "\<forall>e ref tr. referee.players ref \<noteq> [] \<and> records ref = []
        \<longrightarrow> (\<exists>ref' tr'. do_turn e ref tr = (Inr ref', tr'))"
  proof (intro allI impI)
    fix e :: env and ref :: referee and tr
    assume h: "referee.players ref \<noteq> [] \<and> records ref = []"
    then have "\<exists>ref' tr'. do_turn e ref tr = (Inr ref', tr')
     \<and> map player.name (referee.players ref') = map player.name (referee.players ref)"
      by (intro do_turn_total) simp_all
    then show "\<exists>ref' tr'. do_turn e ref tr = (Inr ref', tr')" by blast
  qed
  show ?thesis by (intro conjI a b c d e)
qed


lemma ex_turn_records:
  "\<exists>recs tr'. collect_records (ex_env ex_models) ex_fresh_referee ex_players [] = (Inr recs, tr')
     \<and> map turn_record.name recs = [ascii ''Vanilla'', ascii ''Strategic'', ascii ''Agressor'']
     \<and> map is_invalid_move recs = [False, False, True]
     \<and> map repair_attempted recs = [False, True, False]
     \<and> map applied_guess recs = [Some (Fin 50), Some (Fin 50), None]
     \<and> map call_max_tokens tr' = [600, 600, 150, 600]"
  by (simp add: ex_players_def do_turn_for_player_cases ex_env_simps ex_models_def ex_requests
      ex_names ex_chatter_fails ex_parse_json record_simps repair_response_def send_def
      llm_request_simps MAX_TOKENS_def ex_move_def TurnRecord_init_def Let_def)


theorem do_turn_for_player_isolates_failures_witness:
  "(\<exists>rec. do_turn_for_player (ex_env ex_models) ex_fresh_referee (ex_player ''Agressor'' 30) []
       = (Inr rec, [] @ [move_request (ex_env ex_models) (ex_player ''Agressor'' 30)
                           (referee.turn ex_fresh_referee)])
     \<and> is_invalid_move rec \<and> move rec = None \<and> raw_response rec = [])
 \<and> (\<exists>rec. do_turn_for_player (ex_env ex_models_chatter) ex_fresh_referee
              (ex_player ''Vanilla'' 10) []
       = (Inr rec,
          ([] @ [move_request (ex_env ex_models_chatter) (ex_player ''Vanilla'' 10)
                   (referee.turn ex_fresh_referee)])
          @ [repair_request (ex_env ex_models_chatter) ex_chatter (ex_player ''Vanilla'' 10)])
     \<and> is_invalid_move rec \<and> move rec = None \<and> raw_response rec = ex_chatter)
 \<and> (\<exists>ref' tr'. do_turn (ex_env ex_models) ex_fresh_referee [] = (Inr ref', tr'))"
proof (intro conjI)
  show "\<exists>rec. do_turn_for_player (ex_env ex_models) ex_fresh_referee (ex_player ''Agressor'' 30) []
       = (Inr rec, [] @ [move_request (ex_env ex_models) (ex_player ''Agressor'' 30)
                           (referee.turn ex_fresh_referee)])
     \<and> is_invalid_move rec \<and> move rec = None \<and> raw_response rec = []"
  proof (rule do_turn_for_player_isolates_failures [THEN conjunct2, THEN conjunct1, rule_format])
    show "remote (ex_env ex_models) []
      (move_request (ex_env ex_models) (ex_player ''Agressor'' 30) (referee.turn ex_fresh_referee))
      = Inl (LLMError 503)"
      by (simp add: ex_env_simps ex_models_def ex_requests ex_names)
  qed
next
  let ?e = "ex_env ex_models_chatter" and ?p = "ex_player ''Vanilla'' 10"
  let ?c = "move_request ?e ?p (referee.turn ex_fresh_referee)"
  have first: "remote ?e [] ?c = Inr ex_chatter"
    by (simp add: ex_env_simps ex_models_chatter_def)
  have "remote ?e ([] @ [?c]) (repair_request ?e ex_chatter ?p) = Inr ex_chatter"
    by (simp add: ex_env_simps ex_models_chatter_def)
  then have repair: "repair_response ?e ex_fresh_referee ?p ex_chatter ([] @ [?c])
      = (Inr ex_chatter, ([] @ [?c]) @ [repair_request ?e ex_chatter ?p])"
    by (rule repair_response_same_agent)
  have again: "\<forall>repaired. Inr ex_chatter = (Inr repaired :: error + pystr)
      \<longrightarrow> (\<exists>rerr. parse_response ?e repaired = Inl rerr)"
    using ex_chatter_fails by auto
  show "\<exists>rec. do_turn_for_player ?e ex_fresh_referee ?p []
       = (Inr rec, ([] @ [?c]) @ [repair_request ?e ex_chatter ?p])
     \<and> is_invalid_move rec \<and> move rec = None \<and> raw_response rec = ex_chatter"
    by (rule do_turn_for_player_isolates_failures
          [THEN conjunct2, THEN conjunct2, THEN conjunct1, rule_format])
       (use first ex_chatter_fails repair again in blast)
next
  show "\<exists>ref' tr'. do_turn (ex_env ex_models) ex_fresh_referee [] = (Inr ref', tr')"
    by (rule do_turn_for_player_isolates_failures
          [THEN conjunct2, THEN conjunct2, THEN conjunct2, THEN conjunct2, rule_format])
       (simp add: ex_fresh_referee_def Referee_init_def ex_players_def)
qed

text \<open>
  Claim C7. \<open>repair_response\<close> first sends the same player's model the corrective
  prompt, with a budget of \<open>MAX_TOKENS // 4\<close> (150 of 600). If that call returns, its
  reply is the result and no other call is made. If it raises, the players of another
  name are asked in the order of the player list, each with the helper prompt and the
  same quarter budget; the first reply is the result, unparsed, and no later helper is
  asked; if every helper raises as well, the error of the same-agent call is raised. In
  \<open>do_turn_for_player\<close> the repaired text is parsed once: the trace ends with the calls
  of the repair, and the record is accepted or invalid according to that one parse.
\<close>

theorem repair_response_protocol:
  "(\<forall>e ref p original tr. \<exists>res rest.
        repair_response e ref p original tr = (res, tr @ repair_request e original p # rest))
 \<and> (\<forall>e original p. callee (repair_request e original p) = player.name p
        \<and> call_user (repair_request e original p) = repair_user original
        \<and> call_max_tokens (repair_request e original p) = MAX_TOKENS div 4)
 \<and> (\<forall>e original h. callee (helper_request e original h) = player.name h
        \<and> call_user (helper_request e original h) = helper_prompt original
        \<and> call_max_tokens (helper_request e original h) = MAX_TOKENS div 4)
 \<and> 4 * (MAX_TOKENS div 4) = MAX_TOKENS
 \<and> (\<forall>e ref p original tr reply.
        remote e tr (repair_request e original p) = Inr reply
        \<longrightarrow> repair_response e ref p original tr
              = (Inr reply, tr @ [repair_request e original p]))
 \<and> (\<forall>e ref p original tr err.
        remote e tr (repair_request e original p) = Inl err
        \<longrightarrow> (let cs = map (helper_request e original) (helpers_of ref p);
                  tr0 = tr @ [repair_request e original p]
              in (\<exists>k < length cs. \<exists>reply.
                    repair_response e ref p original tr = (Inr reply, tr0 @ take (Suc k) cs)
                  \<and> remote e (tr0 @ take k cs) (cs ! k) = Inr reply
                  \<and> (\<forall>j < k. \<exists>err'. remote e (tr0 @ take j cs) (cs ! j) = Inl err'))
               \<or> (repair_response e ref p original tr = (Inl err, tr0 @ cs)
                  \<and> (\<forall>k < length cs. \<exists>err'. remote e (tr0 @ take k cs) (cs ! k) = Inl err'))))
 \<and> (\<forall>e ref p tr reply perr repaired tr2.
        remote e tr (move_request e p (referee.turn ref)) = Inr reply
        \<and> parse_response e reply = Inl perr
        \<and> repair_response e ref p reply (tr @ [move_request e p (referee.turn ref)])
            = (Inr repaired, tr2)
        \<longrightarrow> (\<exists>rec. do_turn_for_player e ref p tr = (Inr rec, tr2)
              \<and> (case parse_response e repaired of
                    Inr mv \<Rightarrow> \<not> is_invalid_move rec \<and> move rec = Some mv \<and> repair_attempted rec
                  | Inl rerr \<Rightarrow> is_invalid_move rec \<and> move rec = None)))"
proof -
  have a: "\<forall>e ref p original tr. \<exists>res rest.
        repair_response e ref p original tr = (res, tr @ repair_request e original p # rest)"
    using repair_response_first_call by blast
  have b: "\<forall>e original p. callee (repair_request e original p) = player.name p
        \<and> call_user (repair_request e original p) = repair_user original
        \<and> call_max_tokens (repair_request e original p) = MAX_TOKENS div 4"
    by (simp add: repair_request_def llm_request_def)
  have c: "\<forall>e original h. callee (helper_request e original h) = player.name h
        \<and> call_user (helper_request e original h) = helper_prompt original
        \<and> call_max_tokens (helper_request e original h) = MAX_TOKENS div 4"
    by (simp add: helper_request_def llm_request_def)
  have d: "4 * (MAX_TOKENS div 4) = MAX_TOKENS"
    by (rule quarter_budget)
  have e: "\<forall>e ref p original tr reply.
        remote e tr (repair_request e original p) = Inr reply
        \<longrightarrow> repair_response e ref p original tr
              = (Inr reply, tr @ [repair_request e original p])"
    using repair_response_same_agent by blast
  have f: "\<forall>e ref p original tr err.
        remote e tr (repair_request e original p) = Inl err
        \<longrightarrow> (let cs = map (helper_request e original) (helpers_of ref p);
                  tr0 = tr @ [repair_request e original p]
              in (\<exists>k < length cs. \<exists>reply.
                    repair_response e ref p original tr = (Inr reply, tr0 @ take (Suc k) cs)
                  \<and> remote e (tr0 @ take k cs) (cs ! k) = Inr reply
                  \<and> (\<forall>j < k. \<exists>err'. remote e (tr0 @ take j cs) (cs ! j) = Inl err'))
               \<or> (repair_response e ref p original tr = (Inl err, tr0 @ cs)
                  \<and> (\<forall>k < length cs. \<exists>err'. remote e (tr0 @ take k cs) (cs ! k) = Inl err')))"
    unfolding Let_def using repair_response_helpers by blast
  have g: "\<forall>e ref p tr reply perr repaired tr2.
        remote e tr (move_request e p (referee.turn ref)) = Inr reply
        \<and> parse_response e reply = Inl perr
        \<and> repair_response e ref p reply (tr @ [move_request e p (referee.turn ref)])
            = (Inr repaired, tr2)
        \<longrightarrow> (\<exists>rec. do_turn_for_player e ref p tr = (Inr rec, tr2)
              \<and> (case parse_response e repaired of
                    Inr mv \<Rightarrow> \<not> is_invalid_move rec \<and> move rec = Some mv \<and> repair_attempted rec
                  | Inl rerr \<Rightarrow> is_invalid_move rec \<and> move rec = None))"
    by (auto simp: do_turn_for_player_cases record_simps Let_def split: sum.splits)
  show ?thesis by (intro conjI a b c d e f g)
qed

theorem repair_response_protocol_witness:
  "let cs = map (helper_request (ex_env ex_models_helper) ex_chatter)
              (helpers_of ex_fresh_referee (ex_player ''Strategic'' 20));
       tr0 = [] @ [repair_request (ex_env ex_models_helper) ex_chatter (ex_player ''Strategic'' 20)]
   in (\<exists>k < length cs. \<exists>reply.
         repair_response (ex_env ex_models_helper) ex_fresh_referee (ex_player ''Strategic'' 20)
             ex_chatter [] = (Inr reply, tr0 @ take (Suc k) cs)
       \<and> remote (ex_env ex_models_helper) (tr0 @ take k cs) (cs ! k) = Inr reply
       \<and> (\<forall>j < k. \<exists>err'. remote (ex_env ex_models_helper) (tr0 @ take j cs) (cs ! j) = Inl err'))
    \<or> (repair_response (ex_env ex_models_helper) ex_fresh_referee (ex_player ''Strategic'' 20)
             ex_chatter [] = (Inl (LLMError 502), tr0 @ cs)
       \<and> (\<forall>k < length cs. \<exists>err'. remote (ex_env ex_models_helper) (tr0 @ take k cs) (cs ! k) = Inl err'))"
proof (rule repair_response_protocol [THEN conjunct2, THEN conjunct2, THEN conjunct2,
         THEN conjunct2, THEN conjunct2, THEN conjunct1, rule_format])
  show "remote (ex_env ex_models_helper) []
          (repair_request (ex_env ex_models_helper) ex_chatter (ex_player ''Strategic'' 20))
        = Inl (LLMError 502)"
    by (simp add: ex_env_simps ex_models_helper_def ex_requests ex_names MAX_TOKENS_def)
qed


lemma ex_helper_repairs:
  "repair_response (ex_env ex_models_helper) ex_fresh_referee (ex_player ''Strategic'' 20)
       ex_chatter []
     = (Inr ex_single_quoted,
        [repair_request (ex_env ex_models_helper) ex_chatter (ex_player ''Strategic'' 20),
         helper_request (ex_env ex_models_helper) ex_chatter (ex_player ''Vanilla'' 10),
         helper_request (ex_env ex_models_helper) ex_chatter (ex_player ''Agressor'' 30)])"
  by (simp add: repair_response_def send_def ex_env_simps ex_models_helper_def ex_names
      ex_fresh_referee_def Referee_init_def ex_players_def MAX_TOKENS_def Let_def
      repair_request_def helper_request_def llm_request_simps)


text \<open>
  Claim C8. When the first reply does not parse and the repaired text does, the record
  should keep both texts. Line 89 builds it with \<open>raw_response=repaired\<close>: below,
  Strategic's model answers the move request with prose and the reformatting request
  with the JSON object, and the record ends with the JSON object both as
  \<open>repaired_response\<close> and as \<open>raw_response\<close>; the prose is not on the record.
\<close>

theorem repaired_record_drops_original_response:
  "\<exists>rec tr'.
      remote (ex_env ex_models) []
        (move_request (ex_env ex_models) (ex_player ''Strategic'' 20) (referee.turn ex_fresh_referee))
        = Inr ex_chatter
    \<and> do_turn_for_player (ex_env ex_models) ex_fresh_referee (ex_player ''Strategic'' 20) []
        = (Inr rec, tr')
    \<and> \<not> is_invalid_move rec
    \<and> repair_attempted rec
    \<and> move rec = Some (ex_move 50)
    \<and> repaired_response rec = ex_json_text
    \<and> raw_response rec = ex_json_text
    \<and> raw_response rec \<noteq> ex_chatter"
proof -
  let ?e = "ex_env ex_models" and ?p = "ex_player ''Strategic'' 20"
  let ?c = "move_request ?e ?p (referee.turn ex_fresh_referee)"
  have first: "remote ?e [] ?c = Inr ex_chatter"
    by (simp add: ex_env_simps ex_models_def ex_requests ex_names)
  have "remote ?e ([] @ [?c]) (repair_request ?e ex_chatter ?p) = Inr ex_json_text"
    by (simp add: ex_env_simps ex_models_def ex_requests ex_names MAX_TOKENS_def)
  then have repair: "repair_response ?e ex_fresh_referee ?p ex_chatter ([] @ [?c])
      = (Inr ex_json_text, ([] @ [?c]) @ [repair_request ?e ex_chatter ?p])"
    by (rule repair_response_same_agent)
  from do_turn_for_player_repaired [OF first ex_chatter_fails repair ex_parse_json] first
  show ?thesis
    using ex_texts_differ(4) by auto
qed

end
